theory Spec2Isabelle
  imports Complex_Main "HOL-Library.AList"
begin

section \<open>Strings\<close>

text \<open>
  The pages under \<^verbatim>\<open>frontend/src/pages\<close> are React components written in
  TypeScript. A JavaScript string is modelled as a \<^typ>\<open>string\<close>, a list of
  8-bit characters read as the code units U+0000 to U+00FF: the ASCII range, on which the
  name filters below work, and the Latin-1 supplement.
\<close>

definition code_unit :: "char \<Rightarrow> nat" where
  "code_unit c = of_char c"

text \<open>\<^verbatim>\<open>String.prototype.toLowerCase\<close>: A to Z, and the capital letters of the
  Latin-1 supplement (U+00C0 to U+00DE without the multiplication sign U+00D7), move up
  by 32; every other code unit of the range stays.\<close>

definition toLowerCase_char :: "char \<Rightarrow> char" where
  "toLowerCase_char c =
     (let n = code_unit c in
      if (65 \<le> n \<and> n \<le> 90) \<or> (192 \<le> n \<and> n \<le> 222 \<and> n \<noteq> 215)
      then char_of (n + 32) else c)"

definition toLowerCase :: "string \<Rightarrow> string" where
  "toLowerCase s = map toLowerCase_char s"

text \<open>The character class \<^verbatim>\<open>[a-z0-9_]\<close>.\<close>

definition is_name_char :: "char \<Rightarrow> bool" where
  "is_name_char c =
     (let n = code_unit c in
      (97 \<le> n \<and> n \<le> 122) \<or> (48 \<le> n \<and> n \<le> 57) \<or> n = 95)"

text \<open>\<^verbatim>\<open>s.replace(/[^a-z0-9_]/g, '')\<close>: every character outside the class is
  removed, the others keep their order.\<close>

definition replace_non_name_chars :: "string \<Rightarrow> string" where
  "replace_non_name_chars s = filter is_name_char s"

text \<open>The \<^verbatim>\<open>onChange\<close> handler of the name inputs of the Add Column, Edit
  Column and Edit Table forms stores
  \<^verbatim>\<open>e.target.value.toLowerCase().replace(/[^a-z0-9_]/g, '')\<close>.\<close>

definition onChange_name :: "string \<Rightarrow> string" where
  "onChange_name v = replace_non_name_chars (toLowerCase v)"

text \<open>\<^verbatim>\<open>s.includes(sub)\<close>: \<^verbatim>\<open>sub\<close> occurs in \<^verbatim>\<open>s\<close> as a
  contiguous run.\<close>

fun js_includes :: "string \<Rightarrow> string \<Rightarrow> bool" where
  "js_includes [] sub = (sub = [])"
| "js_includes (c # cs) sub = (take (length sub) (c # cs) = sub \<or> js_includes cs sub)"

text \<open>White space and line terminators of ECMAScript within the range: tab, line feed,
  vertical tab, form feed, carriage return, space and no-break space.\<close>

definition is_white_space :: "char \<Rightarrow> bool" where
  "is_white_space c = (code_unit c \<in> {9, 10, 11, 12, 13, 32, 160})"

definition trim :: "string \<Rightarrow> string" where
  "trim s = dropWhile is_white_space (rev (dropWhile is_white_space (rev s)))"

text \<open>
  Modelled from the spec: \<^verbatim>\<open>stripName\<close> is imported by every page from
  \<^verbatim>\<open>../lib/utils\<close>, a file that is not among the sources. The Identifier
  Validator of the specification ``trims'' a name and ``rejects empty or whitespace-only
  input''; the pages call \<^verbatim>\<open>stripName\<close> under the comments ``Validate and trim
  column name'' and ``trim keys'', test its result for emptiness themselves, and apply it
  to e-mail addresses and descriptions as well. It is therefore the trimming step alone:
  white space is removed at both ends and nothing else changes.
\<close>

definition stripName :: "string \<Rightarrow> string" where
  "stripName s = trim s"

section \<open>Objects\<close>

text \<open>
  A JavaScript object with string keys is the list of its own properties in the order
  \<^verbatim>\<open>Object.keys\<close> and \<^verbatim>\<open>Object.entries\<close> enumerate them: the keys that
  are array indices first, in ascending numeric order, then the other keys in the order
  they were created. Keys are pairwise distinct. The list is also what
  \<^verbatim>\<open>JSON.stringify\<close> writes into a request body.
\<close>

type_synonym 'v js_object = "(string \<times> 'v) list"

definition is_digit :: "char \<Rightarrow> bool" where
  "is_digit c = (48 \<le> code_unit c \<and> code_unit c \<le> 57)"

definition index_value :: "string \<Rightarrow> nat" where
  "index_value k = foldl (\<lambda>n c. 10 * n + (code_unit c - 48)) 0 k"

text \<open>An array index is the canonical decimal numeral of an integer below
  \<open>2\<^sup>3\<^sup>2 - 1\<close>.\<close>

definition is_array_index :: "string \<Rightarrow> bool" where
  "is_array_index k =
     (k \<noteq> [] \<and> list_all is_digit k \<and> (k = ''0'' \<or> hd k \<noteq> CHR ''0'') \<and>
      index_value k < 4294967295)"

fun insert_index :: "string \<Rightarrow> 'v \<Rightarrow> 'v js_object \<Rightarrow> 'v js_object" where
  "insert_index k v [] = [(k, v)]"
| "insert_index k v (p # ps) =
     (if is_array_index (fst p) \<and> index_value (fst p) < index_value k
      then p # insert_index k v ps
      else (k, v) # p # ps)"

text \<open>Defining an own property, as a computed key \<^verbatim>\<open>{ ...obj, [k]: v }\<close> of an
  object literal does: an existing key keeps its place and takes the new value; a new
  key is created, among the array indices or at the end.\<close>

definition obj_define :: "string \<Rightarrow> 'v \<Rightarrow> 'v js_object \<Rightarrow> 'v js_object" where
  "obj_define k v ob =
     (if k \<in> fst ` set ob then AList.update k v ob
      else if is_array_index k then insert_index k v ob
      else ob @ [(k, v)])"

text \<open>
  The assignment \<^verbatim>\<open>obj[k] = v\<close> on an object made by \<^verbatim>\<open>{}\<close>. It sets an own
  property that exists, and otherwise creates one, except for the key
  \<^verbatim>\<open>__proto__\<close>: when the object has no own property of that name, the assignment
  reaches the accessor of \<^verbatim>\<open>Object.prototype\<close>, which changes the prototype of
  the object (for a value that is an object) or does nothing (for any other value), and
  no own property is created. Every other name that \<^verbatim>\<open>Object.prototype\<close> holds is
  a writable data property, over which an assignment creates an own property.
\<close>

definition obj_set :: "string \<Rightarrow> 'v \<Rightarrow> 'v js_object \<Rightarrow> 'v js_object" where
  "obj_set k v ob =
     (if k = ''__proto__'' \<and> k \<notin> fst ` set ob then ob else obj_define k v ob)"

text \<open>Reading an own property \<^verbatim>\<open>obj[k]\<close> is \<^term>\<open>map_of ob k\<close>, with
  \<^const>\<open>None\<close> for \<^verbatim>\<open>undefined\<close>.\<close>

definition obj_keys :: "'v js_object \<Rightarrow> string list" where
  "obj_keys ob = map fst ob"

section \<open>Name forms\<close>

text \<open>
  A submit handler ends in one of three ways before any response is read: it returns
  without doing anything, it shows an alert and returns (the input is rejected and no
  request is issued), or it issues its one request to the API.
\<close>

datatype 'r outcome = Returned | Alert string | Request 'r

text \<open>\<^verbatim>\<open>x || null\<close> for a string \<^verbatim>\<open>x\<close>: the empty string is falsy.\<close>

definition or_null :: "string \<Rightarrow> string option" where
  "or_null x = (if x = [] then None else Some x)"

subsection \<open>Add Column (TableDetail.tsx)\<close>

record ColumnDefinition =
  cd_name :: string
  cd_type :: string
  cd_nullable :: bool
  cd_default :: "string option"

record add_column_request =
  ac_table_id :: string
  ac_body :: ColumnDefinition

definition newColumn_onChange_name :: "ColumnDefinition \<Rightarrow> string \<Rightarrow> ColumnDefinition" where
  "newColumn_onChange_name newColumn v = newColumn\<lparr>cd_name := onChange_name v\<rparr>"

text \<open>\<^verbatim>\<open>handleAddColumn\<close>: \<^verbatim>\<open>tableId\<close> is the route parameter,
  \<^verbatim>\<open>undefined\<close> (\<^const>\<open>None\<close>) or a string; \<^verbatim>\<open>!tableId\<close> holds for
  \<^verbatim>\<open>undefined\<close> and for the empty string.\<close>

definition handleAddColumn ::
  "string option \<Rightarrow> ColumnDefinition \<Rightarrow> add_column_request outcome" where
  "handleAddColumn tableId newColumn =
     (case tableId of
        None \<Rightarrow> Returned
      | Some tid \<Rightarrow>
          if tid = [] then Returned
          else
            (let columnName = stripName (cd_name newColumn) in
             if columnName = [] then Alert ''Column name cannot be empty''
             else Request \<lparr>ac_table_id = tid, ac_body = newColumn\<lparr>cd_name := columnName\<rparr>\<rparr>))"

subsection \<open>Edit Column (TableDetail.tsx)\<close>

record editColumn =
  ec_originalName :: string
  ec_new_name :: string
  ec_type :: string
  ec_nullable :: bool

record column_update =
  cu_new_name :: "string option"
  cu_type :: string
  cu_nullable :: bool

record update_column_request =
  uc_table_id :: string
  uc_column_name :: string
  uc_body :: column_update

record column_entry =
  col_name :: string
  col_type :: string
  col_nullable :: bool

definition openEditColumnModal :: "column_entry \<Rightarrow> editColumn" where
  "openEditColumnModal col =
     \<lparr>ec_originalName = col_name col, ec_new_name = col_name col,
      ec_type = col_type col, ec_nullable = col_nullable col\<rparr>"

definition editColumn_onChange_name :: "editColumn \<Rightarrow> string \<Rightarrow> editColumn" where
  "editColumn_onChange_name ec v = ec\<lparr>ec_new_name := onChange_name v\<rparr>"

definition handleUpdateColumn ::
  "string option \<Rightarrow> editColumn \<Rightarrow> update_column_request outcome" where
  "handleUpdateColumn tableId ec =
     (case tableId of
        None \<Rightarrow> Returned
      | Some tid \<Rightarrow>
          if tid = [] then Returned
          else
            (let newColumnName = stripName (ec_new_name ec) in
             if newColumnName = [] then Alert ''Column name cannot be empty''
             else Request
               \<lparr>uc_table_id = tid, uc_column_name = ec_originalName ec,
                uc_body =
                  \<lparr>cu_new_name =
                     (if newColumnName \<noteq> ec_originalName ec then Some newColumnName else None),
                   cu_type = ec_type ec, cu_nullable = ec_nullable ec\<rparr>\<rparr>))"

subsection \<open>Edit Table (Tables.tsx)\<close>

record table_form =
  tf_name :: string
  tf_description :: string
  tf_public :: bool

text \<open>Of a \<^verbatim>\<open>TableRead\<close> the handlers read the id, the name, the description,
  the visibility and the schema, whose entries give each column its type and
  nullability.\<close>

record column_spec =
  cs_type :: string
  cs_nullable :: bool

record TableRead =
  tr_id :: string
  tr_name :: string
  tr_description :: "string option"
  tr_public :: "bool option"
  tr_schema :: "column_spec js_object"

record table_update =
  tu_name :: "string option"
  tu_description :: "string option"
  tu_public :: bool

record update_table_request =
  ut_table_id :: string
  ut_body :: table_update

text \<open>\<^verbatim>\<open>openEditModal\<close> fills the form from the table:
  \<^verbatim>\<open>description: table.description || ''\<close>, \<^verbatim>\<open>public: table.public ?? false\<close>.\<close>

definition openEditModal :: "TableRead \<Rightarrow> table_form" where
  "openEditModal t =
     \<lparr>tf_name = tr_name t,
      tf_description = (case tr_description t of None \<Rightarrow> [] | Some d \<Rightarrow> d),
      tf_public = (case tr_public t of None \<Rightarrow> False | Some b \<Rightarrow> b)\<rparr>"

definition editForm_onChange_name :: "table_form \<Rightarrow> string \<Rightarrow> table_form" where
  "editForm_onChange_name editForm v = editForm\<lparr>tf_name := onChange_name v\<rparr>"

definition handleEditTable ::
  "TableRead option \<Rightarrow> table_form \<Rightarrow> update_table_request outcome" where
  "handleEditTable selectedTable editForm =
     (case selectedTable of
        None \<Rightarrow> Returned
      | Some t \<Rightarrow>
          (let tableName = stripName (tf_name editForm) in
           if tableName = [] then Alert ''Table name cannot be empty''
           else Request
             \<lparr>ut_table_id = tr_id t,
              ut_body =
                \<lparr>tu_name = (if tableName \<noteq> tr_name t then Some tableName else None),
                 tu_description = or_null (stripName (tf_description editForm)),
                 tu_public = tf_public editForm\<rparr>\<rparr>))"

subsection \<open>Create Table (Tables.tsx)\<close>

record createForm =
  cf_name :: string
  cf_description :: string
  cf_public :: bool
  cf_columns :: "column_entry list"

record create_table_request =
  ct_name :: string
  ct_description :: "string option"
  ct_public :: bool
  ct_schema :: "column_spec js_object"

definition initial_createForm :: createForm where
  "initial_createForm =
     \<lparr>cf_name = [], cf_description = [], cf_public = False,
      cf_columns = [\<lparr>col_name = ''id'', col_type = ''uuid'', col_nullable = False\<rparr>]\<rparr>"

text \<open>The name inputs of the Create Table form store \<^verbatim>\<open>e.target.value\<close> as it
  is.\<close>

definition createForm_onChange_name :: "createForm \<Rightarrow> string \<Rightarrow> createForm" where
  "createForm_onChange_name form v = form\<lparr>cf_name := v\<rparr>"

definition handleAddColumn_createForm :: "createForm \<Rightarrow> createForm" where
  "handleAddColumn_createForm form =
     form\<lparr>cf_columns :=
       cf_columns form @ [\<lparr>col_name = [], col_type = ''text'', col_nullable = True\<rparr>]\<rparr>"

text \<open>\<^verbatim>\<open>handleColumnChange(index, 'name', value)\<close>; the index is that of a rendered
  row, so it is in range.\<close>

definition handleColumnChange_name :: "createForm \<Rightarrow> nat \<Rightarrow> string \<Rightarrow> createForm" where
  "handleColumnChange_name form index v =
     (if index < length (cf_columns form)
      then form\<lparr>cf_columns :=
        (cf_columns form)[index := (cf_columns form ! index)\<lparr>col_name := v\<rparr>]\<rparr>
      else form)"

definition handleColumnChange_type :: "createForm \<Rightarrow> nat \<Rightarrow> string \<Rightarrow> createForm" where
  "handleColumnChange_type form index v =
     (if index < length (cf_columns form)
      then form\<lparr>cf_columns :=
        (cf_columns form)[index := (cf_columns form ! index)\<lparr>col_type := v\<rparr>]\<rparr>
      else form)"

text \<open>The loop of \<^verbatim>\<open>handleCreateTable\<close> over \<^verbatim>\<open>createForm.columns\<close>: it
  returns at the first column whose name is empty, and otherwise assigns
  \<^verbatim>\<open>schema[colName]\<close>.\<close>

fun build_schema ::
  "column_entry list \<Rightarrow> column_spec js_object \<Rightarrow> string + column_spec js_object" where
  "build_schema [] schema = Inr schema"
| "build_schema (col # cols) schema =
     (let colName = stripName (col_name col) in
      if colName = [] then Inl ''Column names cannot be empty''
      else build_schema cols
             (obj_set colName \<lparr>cs_type = col_type col, cs_nullable = col_nullable col\<rparr> schema))"

definition handleCreateTable :: "createForm \<Rightarrow> create_table_request outcome" where
  "handleCreateTable form =
     (let tableName = stripName (cf_name form) in
      if tableName = [] then Alert ''Table name cannot be empty''
      else
        (case build_schema (cf_columns form) [] of
           Inl msg \<Rightarrow> Alert msg
         | Inr schema \<Rightarrow>
             Request
               \<lparr>ct_name = tableName,
                ct_description = or_null (stripName (cf_description form)),
                ct_public = cf_public form,
                ct_schema = schema\<rparr>))"

text \<open>The slug pattern \<^verbatim>\<open>^[a-z][a-z0-9_]*$\<close> of the data model.\<close>

definition is_lower_letter :: "char \<Rightarrow> bool" where
  "is_lower_letter c = (97 \<le> code_unit c \<and> code_unit c \<le> 122)"

definition matches_slug :: "string \<Rightarrow> bool" where
  "matches_slug s =
     (case s of [] \<Rightarrow> False | c # cs \<Rightarrow> is_lower_letter c \<and> list_all is_name_char cs)"



subsection \<open>Example forms\<close>

text \<open>The Add Column form as it opens; \<^verbatim>\<open>DEFAULT_COLUMN_TYPE\<close> comes from
  \<^verbatim>\<open>../lib/constants\<close> and is a parameter here.\<close>

definition initial_newColumn :: "string \<Rightarrow> ColumnDefinition" where
  "initial_newColumn default_column_type =
     \<lparr>cd_name = [], cd_type = default_column_type, cd_nullable = True, cd_default = None\<rparr>"

definition title_column :: column_entry where
  "title_column = \<lparr>col_name = ''title'', col_type = ''text'', col_nullable = True\<rparr>"

definition notes_table :: TableRead where
  "notes_table =
     \<lparr>tr_id = ''t1'', tr_name = ''notes'', tr_description = None, tr_public = Some False,
      tr_schema =
        [(''id'', \<lparr>cs_type = ''uuid'', cs_nullable = False\<rparr>),
         (''title'', \<lparr>cs_type = ''text'', cs_nullable = True\<rparr>)]\<rparr>"

text \<open>A Create Table form in which the user has added two columns and named both
  \<^verbatim>\<open>title\<close>.\<close>

definition duplicate_title_form :: createForm where
  "duplicate_title_form =
     \<lparr>cf_name = ''notes'', cf_description = [], cf_public = False,
      cf_columns =
        [\<lparr>col_name = ''id'', col_type = ''uuid'', col_nullable = False\<rparr>,
         \<lparr>col_name = ''title'', col_type = ''text'', col_nullable = True\<rparr>,
         \<lparr>col_name = ''title'', col_type = ''integer'', col_nullable = True\<rparr>]\<rparr>"

section \<open>Rows\<close>

text \<open>
  Row values are of type \<^verbatim>\<open>any\<close>: the inputs of the forms produce strings, a row
  read from the API holds JSON scalars, and a property may hold \<^verbatim>\<open>undefined\<close>.
  Numbers are integers here.
\<close>

datatype js_value = JString string | JNumber int | JBool bool | JNull | JUndefined

text \<open>\<^verbatim>\<open>!x\<close> holds for the falsy values.\<close>

definition is_falsy :: "js_value \<Rightarrow> bool" where
  "is_falsy x = (x = JString [] \<or> x = JNumber 0 \<or> x = JBool False \<or> x = JNull \<or> x = JUndefined)"

subsection \<open>Add Row (TableDetail.tsx)\<close>

text \<open>The test both \<^verbatim>\<open>openAddRowModal\<close> and the Add Row form apply to a column:
  \<^verbatim>\<open>col.name.toLowerCase() === 'id' && col.type.toLowerCase().includes('uuid')\<close>,
  the id column that the backend generates.\<close>

definition is_uuid_id :: "column_entry \<Rightarrow> bool" where
  "is_uuid_id col =
     (toLowerCase (col_name col) = ''id'' \<and> js_includes (toLowerCase (col_type col)) ''uuid'')"

definition openAddRowModal :: "column_entry list \<Rightarrow> js_value js_object" where
  "openAddRowModal columns =
     foldl (\<lambda>initialData col.
              if is_uuid_id col then initialData
              else obj_set (col_name col) (JString []) initialData)
       [] columns"

text \<open>The inputs the Add Row form renders.\<close>

definition add_row_fields :: "column_entry list \<Rightarrow> column_entry list" where
  "add_row_fields columns = filter (\<lambda>col. \<not> is_uuid_id col) columns"

text \<open>The \<^verbatim>\<open>onChange\<close> of the input of column \<^verbatim>\<open>col\<close>:
  \<^verbatim>\<open>setNewRowData({ ...newRowData, [col.name]: e.target.value })\<close>.\<close>

definition newRowData_onChange ::
  "js_value js_object \<Rightarrow> column_entry \<Rightarrow> string \<Rightarrow> js_value js_object" where
  "newRowData_onChange newRowData col v = obj_define (col_name col) (JString v) newRowData"

text \<open>The user types \<^verbatim>\<open>v\<close> into the \<^verbatim>\<open>i\<close>-th rendered input; the form state
  after a sequence of such edits.\<close>

definition type_into_add_row ::
  "column_entry list \<Rightarrow> js_value js_object \<Rightarrow> nat \<times> string \<Rightarrow> js_value js_object" where
  "type_into_add_row columns newRowData edit =
     (if fst edit < length (add_row_fields columns)
      then newRowData_onChange newRowData (add_row_fields columns ! fst edit) (snd edit)
      else newRowData)"

definition add_row_form :: "column_entry list \<Rightarrow> (nat \<times> string) list \<Rightarrow> js_value js_object" where
  "add_row_form columns edits = foldl (type_into_add_row columns) (openAddRowModal columns) edits"

record insert_row_request =
  ir_table_id :: string
  ir_body :: "js_value js_object"

text \<open>The \<^verbatim>\<open>forEach\<close> of \<^verbatim>\<open>handleAddRow\<close> over
  \<^verbatim>\<open>Object.entries(newRowData)\<close>, building \<^verbatim>\<open>cleanData\<close>.\<close>

fun clean_entries ::
  "(string \<times> js_value) list \<Rightarrow> js_value js_object \<Rightarrow> js_value js_object" where
  "clean_entries [] cleanData = cleanData"
| "clean_entries ((key, val) # entries) cleanData =
     (let trimmedKey = stripName key in
      clean_entries entries
        (if val \<noteq> JString [] \<and> val \<noteq> JNull \<and> val \<noteq> JUndefined \<and> trimmedKey \<noteq> []
         then obj_set trimmedKey val cleanData
         else cleanData))"

definition handleAddRow ::
  "string option \<Rightarrow> js_value js_object \<Rightarrow> insert_row_request outcome" where
  "handleAddRow tableId newRowData =
     (case tableId of
        None \<Rightarrow> Returned
      | Some tid \<Rightarrow>
          if tid = [] then Returned
          else Request \<lparr>ir_table_id = tid, ir_body = clean_entries newRowData []\<rparr>)"

text \<open>The entries of the form that the claim on \<^verbatim>\<open>handleAddRow\<close> speaks of: the
  value is not the empty string, \<^verbatim>\<open>null\<close> or \<^verbatim>\<open>undefined\<close>, and the
  normalised key is not empty.\<close>

definition is_sent :: "string \<times> js_value \<Rightarrow> bool" where
  "is_sent entry =
     (snd entry \<noteq> JString [] \<and> snd entry \<noteq> JNull \<and> snd entry \<noteq> JUndefined \<and>
      stripName (fst entry) \<noteq> [])"

subsection \<open>Edit Row (TableDetail.tsx)\<close>

record editRowData =
  er_id :: js_value
  er_data :: "js_value js_object"

record update_row_request =
  ur_table_id :: string
  ur_row_id :: js_value
  ur_body :: "js_value js_object"

definition obj_get :: "js_value js_object \<Rightarrow> string \<Rightarrow> js_value" where
  "obj_get ob k = (case map_of ob k of None \<Rightarrow> JUndefined | Some v \<Rightarrow> v)"

definition openEditRowModal :: "js_value js_object \<Rightarrow> editRowData" where
  "openEditRowModal row = \<lparr>er_id = obj_get row ''id'', er_data = row\<rparr>"

text \<open>The Edit Row form renders an input for every column, the id column included.\<close>

definition editRowData_onChange :: "editRowData \<Rightarrow> column_entry \<Rightarrow> string \<Rightarrow> editRowData" where
  "editRowData_onChange erd col v =
     erd\<lparr>er_data := obj_define (col_name col) (JString v) (er_data erd)\<rparr>"

text \<open>
  \<^verbatim>\<open>handleUpdateRow\<close>. The rest pattern
  \<^verbatim>\<open>const { id, ...rawUpdateData } = editRowData.data\<close> copies every entry but that
  of the key \<^verbatim>\<open>id\<close>. \<^verbatim>\<open>stripObjectKeys\<close> is imported from
  \<^verbatim>\<open>../lib/utils\<close>, which is not among the sources, and the specification does not
  describe it: the handler takes it as a parameter.
\<close>

definition handleUpdateRow ::
  "(js_value js_object \<Rightarrow> js_value js_object) \<Rightarrow> string option \<Rightarrow> editRowData \<Rightarrow>
   update_row_request outcome" where
  "handleUpdateRow stripObjectKeys tableId erd =
     (case tableId of
        None \<Rightarrow> Returned
      | Some tid \<Rightarrow>
          if tid = [] \<or> is_falsy (er_id erd) then Returned
          else
            (let rawUpdateData = filter (\<lambda>entry. fst entry \<noteq> ''id'') (er_data erd);
                 updateData = stripObjectKeys rawUpdateData
             in Request \<lparr>ur_table_id = tid, ur_row_id = er_id erd, ur_body = updateData\<rparr>))"

subsection \<open>Add Row of the quick view (Tables.tsx)\<close>

text \<open>\<^verbatim>\<open>handleAddRow\<close> of \<^verbatim>\<open>Tables.tsx\<close> inserts a row that holds the empty
  string under every key of the table's schema.\<close>

definition handleAddRow_quick ::
  "TableRead option \<Rightarrow> column_spec js_object \<Rightarrow> insert_row_request outcome" where
  "handleAddRow_quick selectedTable tableSchema =
     (case selectedTable of
        None \<Rightarrow> Returned
      | Some t \<Rightarrow>
          Request
            \<lparr>ir_table_id = tr_id t,
             ir_body =
               foldl (\<lambda>newRow key. obj_set (stripName key) (JString []) newRow) []
                 (obj_keys tableSchema)\<rparr>)"

subsection \<open>Example tables\<close>

definition uuid_id_column :: column_entry where
  "uuid_id_column = \<lparr>col_name = ''id'', col_type = ''uuid'', col_nullable = False\<rparr>"

definition integer_id_column :: column_entry where
  "integer_id_column = \<lparr>col_name = ''id'', col_type = ''integer'', col_nullable = False\<rparr>"

definition note_row :: "js_value js_object" where
  "note_row = [(''id'', JString ''r1''), (''title'', JString ''old'')]"

text \<open>The entries \<^verbatim>\<open>handleAddRow\<close> keeps, under their normalised keys.\<close>

definition sent_entries :: "(string \<times> js_value) list \<Rightarrow> (string \<times> js_value) list" where
  "sent_entries entries = map (\<lambda>e. (stripName (fst e), snd e)) (filter is_sent entries)"

definition body_column :: column_entry where
  "body_column = \<lparr>col_name = ''body'', col_type = ''text'', col_nullable = True\<rparr>"

text \<open>A column of the name \<^verbatim>\<open>__proto__\<close>, which the name inputs accept.\<close>

definition proto_column :: column_entry where
  "proto_column = \<lparr>col_name = ''__proto__'', col_type = ''text'', col_nullable = True\<rparr>"

text \<open>The Add Row form of a table with the columns \<^verbatim>\<open>id\<close> (uuid),
  \<^verbatim>\<open>title\<close> and \<^verbatim>\<open>body\<close>, after the user has typed \<^verbatim>\<open>Hello\<close> into
  the first input.\<close>

definition hello_form :: "js_value js_object" where
  "hello_form = add_row_form [uuid_id_column, title_column, body_column] [(0, ''Hello'')]"

text \<open>One reading of \<^verbatim>\<open>stripObjectKeys\<close>, for the examples: every key is replaced
  by its \<^const>\<open>stripName\<close>.\<close>

definition strip_each_key :: "js_value js_object \<Rightarrow> js_value js_object" where
  "strip_each_key ob = map (\<lambda>e. (stripName (fst e), snd e)) ob"

text \<open>The Edit Row form of \<^const>\<open>note_row\<close> after the user has typed \<^verbatim>\<open>r2\<close>
  into the input of \<^verbatim>\<open>id\<close> and \<^verbatim>\<open>new\<close> into that of \<^verbatim>\<open>title\<close>.\<close>

definition edited_note :: editRowData where
  "edited_note =
     editRowData_onChange
       (editRowData_onChange (openEditRowModal note_row) uuid_id_column ''r2'')
       title_column ''new''"

section \<open>List views\<close>

subsection \<open>Tables and Users (Tables.tsx, Users.tsx)\<close>

definition PAGE_SIZE :: int where
  "PAGE_SIZE = 50"

text \<open>The two pages hold the same state: the rows fetched so far
  (\<^verbatim>\<open>tables\<close>, \<^verbatim>\<open>users\<close>), the flags, the page and the search and sort
  settings.\<close>

record 'a list_view =
  lv_items :: "'a list"
  lv_loading :: bool
  lv_hasMore :: bool
  lv_page :: int
  lv_isLoadingMore :: bool
  lv_searchQuery :: string
  lv_sortBy :: string
  lv_sortOrder :: string

definition initial_view :: "'a list_view" where
  "initial_view =
     \<lparr>lv_items = [], lv_loading = True, lv_hasMore = True, lv_page = 1,
      lv_isLoadingMore = False, lv_searchQuery = [], lv_sortBy = ''created_at'',
      lv_sortOrder = ''desc''\<rparr>"

record list_query =
  q_skip :: int
  q_limit :: int
  q_search :: "string option"
  q_sort_by :: string
  q_sort_order :: string

text \<open>The query of \<^verbatim>\<open>fetchTables(pageNum, append)\<close>; \<^verbatim>\<open>fetchUsers\<close> builds
  the same.\<close>

definition fetchTables_query :: "'a list_view \<Rightarrow> int \<Rightarrow> list_query" where
  "fetchTables_query st pageNum =
     (let skip = (pageNum - 1) * PAGE_SIZE in
      \<lparr>q_skip = skip, q_limit = PAGE_SIZE, q_search = or_null (lv_searchQuery st),
       q_sort_by = lv_sortBy st, q_sort_order = lv_sortOrder st\<rparr>)"


text \<open>What the handlers read of a response: \<^verbatim>\<open>hasError(response)\<close> holds and the
  handler throws; or \<^verbatim>\<open>response.data\<close> is there, an array; or neither.\<close>

datatype 'a response = ResponseError string | ResponseData "'a list" | ResponseEmpty

text \<open>\<^verbatim>\<open>fetchTables(pageNum, append)\<close>, from the call to the end of its
  \<^verbatim>\<open>finally\<close> block, for the response the request gets (the parameter
  \<^verbatim>\<open>append\<close> is \<open>appending\<close> here). Without a token no request is made.\<close>

definition fetchTables ::
  "string option \<Rightarrow> 'a list_view \<Rightarrow> int \<Rightarrow> bool \<Rightarrow> 'a response \<Rightarrow> 'a list_view" where
  "fetchTables token st pageNum appending response =
     (if token = None \<or> token = Some [] then st\<lparr>lv_loading := False\<rparr>
      else
        (let st1 = (if pageNum = 1 then st\<lparr>lv_loading := True\<rparr>
                    else st\<lparr>lv_isLoadingMore := True\<rparr>);
             st2 =
               (case response of
                  ResponseData data \<Rightarrow>
                    st1\<lparr>lv_items := (if appending then lv_items st1 @ data else data),
                        lv_hasMore := (int (length data) = PAGE_SIZE)\<rparr>
                | _ \<Rightarrow> st1)
         in st2\<lparr>lv_loading := False, lv_isLoadingMore := False\<rparr>))"

definition fetchUsers ::
  "string option \<Rightarrow> 'a list_view \<Rightarrow> int \<Rightarrow> bool \<Rightarrow> 'a response \<Rightarrow> 'a list_view" where
  "fetchUsers token st pageNum appending response =
     (if token = None \<or> token = Some [] then st
      else
        (let st1 = (if pageNum = 1 then st\<lparr>lv_loading := True\<rparr>
                    else st\<lparr>lv_isLoadingMore := True\<rparr>);
             st2 =
               (case response of
                  ResponseData data \<Rightarrow>
                    st1\<lparr>lv_items := (if appending then lv_items st1 @ data else data),
                        lv_hasMore := (int (length data) = PAGE_SIZE)\<rparr>
                | _ \<Rightarrow> st1)
         in st2\<lparr>lv_loading := False, lv_isLoadingMore := False\<rparr>))"

text \<open>The handlers of the search and sort controls; \<^verbatim>\<open>Tables.tsx\<close> and
  \<^verbatim>\<open>Users.tsx\<close> declare them with the same text. \<^verbatim>\<open>handleSearchChange\<close>
  starts a timer; \<open>searchTimeout\<close> is what runs when the timer fires.\<close>

definition searchTimeout :: "'a list_view \<Rightarrow> string \<Rightarrow> 'a list_view" where
  "searchTimeout st v = st\<lparr>lv_searchQuery := v, lv_page := 1\<rparr>"

definition clearSearch :: "'a list_view \<Rightarrow> 'a list_view" where
  "clearSearch st = st\<lparr>lv_searchQuery := [], lv_page := 1\<rparr>"

definition toggleSortOrder :: "'a list_view \<Rightarrow> 'a list_view" where
  "toggleSortOrder st =
     st\<lparr>lv_sortOrder := (if lv_sortOrder st = ''desc'' then ''asc'' else ''desc''),
        lv_page := 1\<rparr>"

text \<open>The \<^verbatim>\<open>option\<close> values of the two sort selects.\<close>

definition tables_sort_options :: "string list" where
  "tables_sort_options = [''created_at'', ''updated_at'', ''name'']"

definition users_sort_options :: "string list" where
  "users_sort_options = [''created_at'', ''email'', ''first_name'', ''last_name'']"

text \<open>The \<^verbatim>\<open>onChange\<close> of a sort select: the user picks the \<open>i\<close>-th option, and
  \<^verbatim>\<open>e.target.value\<close> is the value of that option.\<close>

definition sortBy_onChange :: "string list \<Rightarrow> 'a list_view \<Rightarrow> nat \<Rightarrow> 'a list_view" where
  "sortBy_onChange options st i =
     (if i < length options then st\<lparr>lv_sortBy := options ! i, lv_page := 1\<rparr> else st)"

text \<open>\<^verbatim>\<open>handleScroll\<close> near the bottom of the grid: the state it sets, and the page
  it fetches.\<close>

definition handleScroll :: "'a list_view \<Rightarrow> 'a list_view" where
  "handleScroll st =
     (if lv_hasMore st \<and> \<not> lv_isLoadingMore st then st\<lparr>lv_page := lv_page st + 1\<rparr> else st)"

definition handleScroll_request :: "'a list_view \<Rightarrow> list_query option" where
  "handleScroll_request st =
     (if lv_hasMore st \<and> \<not> lv_isLoadingMore st
      then Some (fetchTables_query st (lv_page st + 1)) else None)"

text \<open>The effect \<^verbatim>\<open>useEffect(() => { fetchTables(); }, [fetchTables])\<close> runs after
  the token, the search query, the sort field or the sort order has changed, and calls
  \<^verbatim>\<open>fetchTables\<close> with its default arguments.\<close>

definition effect_request :: "'a list_view \<Rightarrow> list_query" where
  "effect_request st = fetchTables_query st 1"

text \<open>The events of the tables view, and the state after each.\<close>

datatype 'a tables_event =
    SearchTimeout string
  | ClearSearch
  | ToggleSortOrder
  | SortBySelected nat
  | Scrolled
  | RefreshClicked
  | FetchDone int bool "'a response"

fun tables_step :: "string option \<Rightarrow> 'a list_view \<Rightarrow> 'a tables_event \<Rightarrow> 'a list_view" where
  "tables_step token st (SearchTimeout v) = searchTimeout st v"
| "tables_step token st ClearSearch = clearSearch st"
| "tables_step token st ToggleSortOrder = toggleSortOrder st"
| "tables_step token st (SortBySelected i) = sortBy_onChange tables_sort_options st i"
| "tables_step token st Scrolled = handleScroll st"
| "tables_step token st RefreshClicked = st\<lparr>lv_page := 1\<rparr>"
| "tables_step token st (FetchDone pageNum appending response) =
     fetchTables token st pageNum appending response"

definition tables_view :: "string option \<Rightarrow> 'a tables_event list \<Rightarrow> 'a list_view" where
  "tables_view token events = foldl (tables_step token) initial_view events"

subsection \<open>Table data (TableDetail.tsx)\<close>

record detail_view =
  dv_page :: int
  dv_searchQuery :: string
  dv_sortBy :: "string option"
  dv_sortOrder :: string

record data_query =
  dq_page :: int
  dq_page_size :: int
  dq_search :: "string option"
  dq_sort_by :: "string option"
  dq_sort_order :: string

text \<open>The query of \<^verbatim>\<open>fetchData\<close>; \<^verbatim>\<open>pageSize\<close> is the constant state
  \<^verbatim>\<open>useState(50)\<close>.\<close>

definition fetchData_query :: "detail_view \<Rightarrow> data_query" where
  "fetchData_query st =
     \<lparr>dq_page = dv_page st, dq_page_size = 50, dq_search = or_null (dv_searchQuery st),
      dq_sort_by = (case dv_sortBy st of None \<Rightarrow> None | Some s \<Rightarrow> or_null s),
      dq_sort_order = dv_sortOrder st\<rparr>"

definition detail_searchTimeout :: "detail_view \<Rightarrow> string \<Rightarrow> detail_view" where
  "detail_searchTimeout st v = st\<lparr>dv_searchQuery := v, dv_page := 1\<rparr>"

definition detail_clearSearch :: "detail_view \<Rightarrow> detail_view" where
  "detail_clearSearch st = st\<lparr>dv_searchQuery := [], dv_page := 1\<rparr>"

definition detail_toggleSortOrder :: "detail_view \<Rightarrow> detail_view" where
  "detail_toggleSortOrder st =
     st\<lparr>dv_sortOrder := (if dv_sortOrder st = ''desc'' then ''asc'' else ''desc''),
        dv_page := 1\<rparr>"

text \<open>The sort select of the table page: \<^verbatim>\<open>setSortBy(e.target.value || null)\<close>.\<close>

definition detail_sortBy_onChange :: "detail_view \<Rightarrow> string \<Rightarrow> detail_view" where
  "detail_sortBy_onChange st v = st\<lparr>dv_sortBy := or_null v, dv_page := 1\<rparr>"

subsection \<open>Scrolling through a collection (Tables.tsx)\<close>








subsection \<open>Page navigation (DataTable)\<close>






text \<open>The sort settings a tables view may hold.\<close>

definition sort_invariant :: "'a list_view \<Rightarrow> bool" where
  "sort_invariant st =
     (lv_sortBy st \<in> set tables_sort_options \<and> lv_sortOrder st \<in> {''asc'', ''desc''})"

text \<open>A view that has scrolled to page 5, and a table page on page 5.\<close>

definition view_on_page_5 :: "string list_view" where
  "view_on_page_5 = initial_view\<lparr>lv_page := 5, lv_loading := False\<rparr>"

definition detail_on_page_5 :: detail_view where
  "detail_on_page_5 =
     \<lparr>dv_page = 5, dv_searchQuery = ''old'', dv_sortBy = None, dv_sortOrder = ''desc''\<rparr>"

section \<open>Properties of objects\<close>

lemma map_of_insert_index:
  "k \<notin> fst ` set ob \<Longrightarrow> map_of (insert_index k v ob) = (map_of ob)(k \<mapsto> v)"
proof (induction ob)
  case Nil
  show ?case by simp
next
  case (Cons p ps)
  from Cons.prems have k: "k \<noteq> fst p" and rest: "k \<notin> fst ` set ps" by auto
  show ?case
  proof (cases "is_array_index (fst p) \<and> index_value (fst p) < index_value k")
    case True
    with Cons.IH [OF rest] k show ?thesis
      by (cases p) (auto simp: fun_eq_iff)
  next
    case False
    then show ?thesis by (cases p) (auto simp: fun_eq_iff)
  qed
qed

lemma map_of_obj_define: "map_of (obj_define k v ob) = (map_of ob)(k \<mapsto> v)"
proof (cases "k \<in> fst ` set ob")
  case True
  then show ?thesis by (simp add: obj_define_def update_conv')
next
  case False
  then have none: "map_of ob k = None" by (simp add: map_of_eq_None_iff)
  show ?thesis
  proof (cases "is_array_index k")
    case True
    with False show ?thesis by (simp add: obj_define_def map_of_insert_index)
  next
    case idx: False
    have "map_of (ob @ [(k, v)]) = (map_of ob)(k \<mapsto> v)"
      using none by (auto simp: fun_eq_iff map_add_def split: option.splits)
    with False idx show ?thesis by (simp add: obj_define_def)
  qed
qed


lemma keys_obj_define: "fst ` set (obj_define k v ob) = insert k (fst ` set ob)"
proof -
  have "dom (map_of (obj_define k v ob)) = insert k (dom (map_of ob))"
    by (simp add: map_of_obj_define)
  then show ?thesis by (simp add: dom_map_of_conv_image_fst)
qed



lemma map_of_obj_set:
  "map_of (obj_set k v ob) =
   (if k = ''__proto__'' \<and> k \<notin> fst ` set ob then map_of ob else (map_of ob)(k \<mapsto> v))"
proof (cases "k = ''__proto__'' \<and> k \<notin> fst ` set ob")
  case True
  show ?thesis by (simp only: obj_set_def if_P [OF True])
next
  case False
  show ?thesis by (simp only: obj_set_def if_not_P [OF False] map_of_obj_define)
qed

lemma map_of_obj_set_other:
  assumes "j \<noteq> ''__proto__''"
  shows "map_of (obj_set k v ob) j = ((map_of ob)(k \<mapsto> v)) j"
proof (cases "k = ''__proto__'' \<and> k \<notin> fst ` set ob")
  case True
  have e: "map_of (obj_set k v ob) = map_of ob"
    by (simp only: map_of_obj_set if_P [OF True])
  from True assms have "j \<noteq> k" by auto
  with e show ?thesis by simp
next
  case False
  have e: "map_of (obj_set k v ob) = (map_of ob)(k \<mapsto> v)"
    by (simp only: map_of_obj_set if_not_P [OF False])
  show ?thesis by (simp only: e)
qed

lemma keys_obj_set_subset: "fst ` set (obj_set k v ob) \<subseteq> insert k (fst ` set ob)"
  by (auto simp: obj_set_def keys_obj_define)

lemma keys_obj_set_superset: "fst ` set ob \<subseteq> fst ` set (obj_set k v ob)"
  by (auto simp: obj_set_def keys_obj_define)


section \<open>Names\<close>

lemma name_char_not_white_space: "is_name_char c \<Longrightarrow> \<not> is_white_space c"
  by (auto simp: is_name_char_def is_white_space_def Let_def)

lemma dropWhile_none: "\<forall>c \<in> set s. \<not> P c \<Longrightarrow> dropWhile P s = s"
  by (cases s) auto

lemma trim_name_chars: "list_all is_name_char s \<Longrightarrow> trim s = s"
proof -
  assume "list_all is_name_char s"
  then have ws: "\<forall>c \<in> set s. \<not> is_white_space c"
    by (auto simp: list_all_iff name_char_not_white_space)
  then have "dropWhile is_white_space (rev s) = rev s"
    by (intro dropWhile_none) simp
  with ws show ?thesis by (simp add: trim_def dropWhile_none)
qed

lemma name_chars_onChange_name: "list_all is_name_char (onChange_name v)"
  by (simp add: onChange_name_def replace_non_name_chars_def list_all_iff)

lemma stripName_onChange_name: "stripName (onChange_name v) = onChange_name v"
  by (simp add: stripName_def trim_name_chars name_chars_onChange_name)

text \<open>
  The Edit Table form, a sibling of the Create Table form, stores the normalised name and
  submits it unchanged.
\<close>

lemma edit_table_submits_normalised_name:
  "handleEditTable (Some t) (editForm_onChange_name editForm v) =
     (if onChange_name v = [] then Alert ''Table name cannot be empty''
      else Request
        \<lparr>ut_table_id = tr_id t,
         ut_body =
           \<lparr>tu_name = (if onChange_name v \<noteq> tr_name t then Some (onChange_name v) else None),
            tu_description = or_null (stripName (tf_description editForm)),
            tu_public = tf_public editForm\<rparr>\<rparr>)"
  by (simp add: handleEditTable_def editForm_onChange_name_def stripName_onChange_name Let_def)

text \<open>
  C1. The claim: the name submitted to a create, add or rename operation is the typed
  input in lower case without the characters outside \<^verbatim>\<open>[a-z0-9_]\<close>, and an empty
  name is rejected with no request. The name inputs of the Create Table form store the
  typed text as it is, and \<^verbatim>\<open>handleCreateTable\<close> only trims it: the text
  \<^verbatim>\<open>Orders-2024\<close> is submitted as the table name \<^verbatim>\<open>Orders-2024\<close>, where the
  normalised name is \<^verbatim>\<open>orders2024\<close>, and the text \<^verbatim>\<open>Unit Price\<close> typed as the
  name of a second column is submitted as the schema key \<^verbatim>\<open>Unit Price\<close>.
\<close>

theorem create_table_name_not_normalised:
  "handleCreateTable (createForm_onChange_name initial_createForm ''Orders-2024'') =
     Request
       \<lparr>ct_name = ''Orders-2024'', ct_description = None, ct_public = False,
        ct_schema = [(''id'', \<lparr>cs_type = ''uuid'', cs_nullable = False\<rparr>)]\<rparr> \<and>
   onChange_name ''Orders-2024'' = ''orders2024'' \<and>
   handleCreateTable
     (handleColumnChange_name
        (handleAddColumn_createForm (createForm_onChange_name initial_createForm ''orders''))
        1 ''Unit Price'') =
     Request
       \<lparr>ct_name = ''orders'', ct_description = None, ct_public = False,
        ct_schema =
          [(''id'', \<lparr>cs_type = ''uuid'', cs_nullable = False\<rparr>),
           (''Unit Price'', \<lparr>cs_type = ''text'', cs_nullable = True\<rparr>)]\<rparr> \<and>
   onChange_name ''Unit Price'' = ''unitprice''"
  by code_simp

text \<open>
  C4, as the claim states it: an accepted name matches \<^verbatim>\<open>^[a-z][a-z0-9_]*$\<close>, so
  a name that begins with a digit or an underscore is rejected. No handler looks at the
  first character: \<^verbatim>\<open>1st_col\<close> is submitted as a column name and \<^verbatim>\<open>_tmp\<close> as
  a table name.
\<close>

theorem leading_digit_counterexample:
  "handleAddColumn (Some ''t1'') (newColumn_onChange_name (initial_newColumn ''text'') ''1st_col'') =
     Request
       \<lparr>ac_table_id = ''t1'',
        ac_body = \<lparr>cd_name = ''1st_col'', cd_type = ''text'', cd_nullable = True, cd_default = None\<rparr>\<rparr> \<and>
   \<not> matches_slug ''1st_col'' \<and>
   handleEditTable (Some notes_table) (editForm_onChange_name (openEditModal notes_table) ''_tmp'') =
     Request
       \<lparr>ut_table_id = ''t1'',
        ut_body = \<lparr>tu_name = Some ''_tmp'', tu_description = None, tu_public = False\<rparr>\<rparr> \<and>
   \<not> matches_slug ''_tmp''"
  by code_simp

text \<open>
  C4, amended: every column name typed into the Add Column or Edit Column form, and every
  table name typed into the Edit Table form, that is submitted is non-empty and consists
  of characters of \<^verbatim>\<open>[a-z0-9_]\<close> only (it matches \<^verbatim>\<open>^[a-z0-9_]+$\<close>); its first
  character is not constrained further.
\<close>

theorem typed_name_only_name_chars:
  "(handleAddColumn tableId (newColumn_onChange_name newColumn v) = Request r \<longrightarrow>
      cd_name (ac_body r) \<noteq> [] \<and> list_all is_name_char (cd_name (ac_body r))) \<and>
   (handleUpdateColumn tableId (editColumn_onChange_name ec v) = Request u \<longrightarrow>
      (\<forall>n. cu_new_name (uc_body u) = Some n \<longrightarrow> n \<noteq> [] \<and> list_all is_name_char n)) \<and>
   (handleEditTable selectedTable (editForm_onChange_name editForm v) = Request t \<longrightarrow>
      (\<forall>n. tu_name (ut_body t) = Some n \<longrightarrow> n \<noteq> [] \<and> list_all is_name_char n))"
proof (intro conjI impI allI)
  assume "handleAddColumn tableId (newColumn_onChange_name newColumn v) = Request r"
  then have "cd_name (ac_body r) = onChange_name v \<and> onChange_name v \<noteq> []"
    by (auto simp: handleAddColumn_def newColumn_onChange_name_def stripName_onChange_name
        Let_def split: option.splits if_splits)
  then show "cd_name (ac_body r) \<noteq> []" "list_all is_name_char (cd_name (ac_body r))"
    by (simp_all add: name_chars_onChange_name)
next
  fix n
  assume "handleUpdateColumn tableId (editColumn_onChange_name ec v) = Request u"
    and "cu_new_name (uc_body u) = Some n"
  then have "n = onChange_name v \<and> onChange_name v \<noteq> []"
    by (auto simp: handleUpdateColumn_def editColumn_onChange_name_def stripName_onChange_name
        Let_def split: option.splits if_splits)
  then show "n \<noteq> []" "list_all is_name_char n"
    by (simp_all add: name_chars_onChange_name)
next
  fix n
  assume "handleEditTable selectedTable (editForm_onChange_name editForm v) = Request t"
    and "tu_name (ut_body t) = Some n"
  then have "n = onChange_name v \<and> onChange_name v \<noteq> []"
    by (auto simp: handleEditTable_def editForm_onChange_name_def stripName_onChange_name
        Let_def split: option.splits if_splits)
  then show "n \<noteq> []" "list_all is_name_char n"
    by (simp_all add: name_chars_onChange_name)
qed

theorem typed_name_only_name_chars_witness:
  "handleAddColumn (Some ''t1'') (newColumn_onChange_name (initial_newColumn ''text'') ''1st Col!'') =
     Request
       \<lparr>ac_table_id = ''t1'',
        ac_body = \<lparr>cd_name = ''1stcol'', cd_type = ''text'', cd_nullable = True, cd_default = None\<rparr>\<rparr> \<and>
   list_all is_name_char ''1stcol'' \<and>
   handleUpdateColumn (Some ''t1'') (editColumn_onChange_name (openEditColumnModal title_column) ''Sub-Title'') =
     Request
       \<lparr>uc_table_id = ''t1'', uc_column_name = ''title'',
        uc_body = \<lparr>cu_new_name = Some ''subtitle'', cu_type = ''text'', cu_nullable = True\<rparr>\<rparr> \<and>
   list_all is_name_char ''subtitle'' \<and>
   handleEditTable (Some notes_table) (editForm_onChange_name (openEditModal notes_table) ''My Notes'') =
     Request
       \<lparr>ut_table_id = ''t1'',
        ut_body = \<lparr>tu_name = Some ''mynotes'', tu_description = None, tu_public = False\<rparr>\<rparr> \<and>
   list_all is_name_char ''mynotes''"
proof -
  let ?r = "\<lparr>ac_table_id = ''t1'',
        ac_body = \<lparr>cd_name = ''1stcol'', cd_type = ''text'', cd_nullable = True, cd_default = None\<rparr>\<rparr>"
  let ?u = "\<lparr>uc_table_id = ''t1'', uc_column_name = ''title'',
        uc_body = \<lparr>cu_new_name = Some ''subtitle'', cu_type = ''text'', cu_nullable = True\<rparr>\<rparr>"
  let ?t = "\<lparr>ut_table_id = ''t1'',
        ut_body = \<lparr>tu_name = Some ''mynotes'', tu_description = None, tu_public = False\<rparr>\<rparr>"
  have a: "handleAddColumn (Some ''t1'')
      (newColumn_onChange_name (initial_newColumn ''text'') ''1st Col!'') = Request ?r"
    by code_simp
  have b: "handleUpdateColumn (Some ''t1'')
      (editColumn_onChange_name (openEditColumnModal title_column) ''Sub-Title'') = Request ?u"
    by code_simp
  have c: "handleEditTable (Some notes_table)
      (editForm_onChange_name (openEditModal notes_table) ''My Notes'') = Request ?t"
    by code_simp
  from typed_name_only_name_chars
    [of "Some ''t1''" "initial_newColumn ''text''" "''1st Col!''" ?r]
    a have "list_all is_name_char ''1stcol''" by simp
  moreover from typed_name_only_name_chars
    [of "Some ''t1''" _ "''Sub-Title''" _ "openEditColumnModal title_column" ?u]
    b have "list_all is_name_char ''subtitle''" by simp
  moreover from typed_name_only_name_chars
    [of _ _ "''My Notes''" _ _ _ "Some notes_table" "openEditModal notes_table" ?t]
    c have "list_all is_name_char ''mynotes''" by simp
  ultimately show ?thesis using a b c by simp
qed

text \<open>
  C5, as the claim states it: name validation rejects the reserved name \<^verbatim>\<open>id\<close>, so
  that no column called \<^verbatim>\<open>id\<close> can be added and no column can be renamed to
  \<^verbatim>\<open>id\<close>. Neither handler knows a reserved word: both requests are issued.
\<close>

theorem reserved_id_counterexample:
  "handleAddColumn (Some ''t1'') (newColumn_onChange_name (initial_newColumn ''text'') ''id'') =
     Request
       \<lparr>ac_table_id = ''t1'',
        ac_body = \<lparr>cd_name = ''id'', cd_type = ''text'', cd_nullable = True, cd_default = None\<rparr>\<rparr> \<and>
   handleUpdateColumn (Some ''t1'') (editColumn_onChange_name (openEditColumnModal title_column) ''id'') =
     Request
       \<lparr>uc_table_id = ''t1'', uc_column_name = ''title'',
        uc_body = \<lparr>cu_new_name = Some ''id'', cu_type = ''text'', cu_nullable = True\<rparr>\<rparr>"
  by code_simp

text \<open>
  C5, amended: for every add-column or column-rename operation the name validation of the
  form rejects a typed name exactly when it is empty after normalisation; the name
  \<^verbatim>\<open>id\<close> is not reserved: typed into the Add Column form it is sent as the name of
  the new column, and typed into the Edit Column form it is sent as the new name of the
  column unless the column is called \<^verbatim>\<open>id\<close> already.
\<close>

theorem id_is_not_reserved:
  "tid \<noteq> [] \<Longrightarrow>
   ((\<exists>msg. handleAddColumn (Some tid) (newColumn_onChange_name newColumn v) = Alert msg)
      \<longleftrightarrow> onChange_name v = []) \<and>
   ((\<exists>msg. handleUpdateColumn (Some tid) (editColumn_onChange_name ec v) = Alert msg)
      \<longleftrightarrow> onChange_name v = []) \<and>
   (onChange_name v = ''id'' \<longrightarrow>
      handleAddColumn (Some tid) (newColumn_onChange_name newColumn v) =
        Request \<lparr>ac_table_id = tid, ac_body = newColumn\<lparr>cd_name := ''id''\<rparr>\<rparr> \<and>
      handleUpdateColumn (Some tid) (editColumn_onChange_name ec v) =
        Request
          \<lparr>uc_table_id = tid, uc_column_name = ec_originalName ec,
           uc_body =
             \<lparr>cu_new_name = (if ec_originalName ec = ''id'' then None else Some ''id''),
              cu_type = ec_type ec, cu_nullable = ec_nullable ec\<rparr>\<rparr>)"
proof -
  assume t: "tid \<noteq> []"
  have add: "handleAddColumn (Some tid) (newColumn_onChange_name newColumn v) =
      (if onChange_name v = [] then Alert ''Column name cannot be empty''
       else Request \<lparr>ac_table_id = tid, ac_body = newColumn\<lparr>cd_name := onChange_name v\<rparr>\<rparr>)"
    using t
    by (simp add: handleAddColumn_def newColumn_onChange_name_def stripName_onChange_name Let_def)
  have upd: "handleUpdateColumn (Some tid) (editColumn_onChange_name ec v) =
      (if onChange_name v = [] then Alert ''Column name cannot be empty''
       else Request
         \<lparr>uc_table_id = tid, uc_column_name = ec_originalName ec,
          uc_body =
            \<lparr>cu_new_name =
               (if onChange_name v \<noteq> ec_originalName ec then Some (onChange_name v) else None),
             cu_type = ec_type ec, cu_nullable = ec_nullable ec\<rparr>\<rparr>)"
    using t
    by (simp add: handleUpdateColumn_def editColumn_onChange_name_def stripName_onChange_name
        Let_def)
  show ?thesis unfolding add upd by auto
qed

theorem id_is_not_reserved_witness:
  "''t1'' \<noteq> [] \<and> onChange_name ''ID'' = ''id'' \<and>
   handleAddColumn (Some ''t1'') (newColumn_onChange_name (initial_newColumn ''text'') ''ID'') =
     Request \<lparr>ac_table_id = ''t1'', ac_body = (initial_newColumn ''text'')\<lparr>cd_name := ''id''\<rparr>\<rparr> \<and>
   handleUpdateColumn (Some ''t1'') (editColumn_onChange_name (openEditColumnModal title_column) ''ID'') =
     Request
       \<lparr>uc_table_id = ''t1'', uc_column_name = ''title'',
        uc_body = \<lparr>cu_new_name = Some ''id'', cu_type = ''text'', cu_nullable = True\<rparr>\<rparr>"
proof -
  have t: "''t1'' \<noteq> []" by simp
  have n: "onChange_name ''ID'' = ''id''" by code_simp
  have o: "ec_originalName (openEditColumnModal title_column) = ''title''"
    "ec_type (openEditColumnModal title_column) = ''text''"
    "ec_nullable (openEditColumnModal title_column) = True"
    by (simp_all add: openEditColumnModal_def title_column_def)
  from id_is_not_reserved
    [OF t, of "initial_newColumn ''text''" "''ID''" "openEditColumnModal title_column"] n o
  show ?thesis by simp
qed

section \<open>Creating a table\<close>


lemma map_add_upd_left: "m(k \<mapsto> v) ++ n = m ++ ([k \<mapsto> v] ++ n)"
  by (auto simp: fun_eq_iff map_add_def split: option.splits)

lemma map_add_cong_left: "f k = g k \<Longrightarrow> (f ++ m) k = (g ++ m) k"
  by (cases "m k") (simp_all add: map_add_def)


lemma duplicate_title_form_reachable:
  "handleColumnChange_type
     (handleColumnChange_name
        (handleAddColumn_createForm
           (handleColumnChange_name
              (handleAddColumn_createForm (createForm_onChange_name initial_createForm ''notes''))
              1 ''title''))
        2 ''title'')
     2 ''integer'' = duplicate_title_form"
  by code_simp




section \<open>Inserting and updating rows\<close>

lemma clean_entries_Cons:
  "clean_entries (e # entries) cleanData =
   clean_entries entries
     (if is_sent e then obj_set (stripName (fst e)) (snd e) cleanData else cleanData)"
  by (cases e) (simp add: is_sent_def Let_def)

lemma proto_not_in_obj_set:
  "''__proto__'' \<notin> fst ` set ob \<Longrightarrow> ''__proto__'' \<notin> fst ` set (obj_set k v ob)"
proof (cases "k = ''__proto__''")
  case True
  assume "''__proto__'' \<notin> fst ` set ob"
  with True show ?thesis by (simp add: obj_set_def)
next
  case False
  assume "''__proto__'' \<notin> fst ` set ob"
  with False keys_obj_set_subset [of k v ob] show ?thesis by blast
qed

lemma proto_not_in_clean_entries:
  "''__proto__'' \<notin> fst ` set cleanData \<Longrightarrow>
   ''__proto__'' \<notin> fst ` set (clean_entries entries cleanData)"
proof (induction entries arbitrary: cleanData)
  case Nil
  then show ?case by simp
next
  case (Cons e entries)
  show ?case
  proof (cases "is_sent e")
    case True
    from Cons.prems have p: "''__proto__'' \<notin> fst ` set (obj_set (stripName (fst e)) (snd e) cleanData)"
      by (rule proto_not_in_obj_set)
    show ?thesis
      unfolding clean_entries_Cons if_P [OF True] by (rule Cons.IH [OF p])
  next
    case False
    show ?thesis
      unfolding clean_entries_Cons if_not_P [OF False] by (rule Cons.IH [OF Cons.prems])
  qed
qed

lemma keys_clean_entries:
  "fst ` set (clean_entries entries cleanData) \<subseteq>
   fst ` set cleanData \<union> (\<lambda>e. stripName (fst e)) ` {e \<in> set entries. is_sent e}"
proof (induction entries arbitrary: cleanData)
  case Nil
  show ?case by simp
next
  case (Cons e entries)
  show ?case
  proof (cases "is_sent e")
    case True
    have "fst ` set (clean_entries (e # entries) cleanData) \<subseteq>
          fst ` set (obj_set (stripName (fst e)) (snd e) cleanData) \<union>
          (\<lambda>e. stripName (fst e)) ` {e \<in> set entries. is_sent e}"
      using Cons.IH by (simp only: clean_entries_Cons if_P [OF True])
    also have "\<dots> \<subseteq> insert (stripName (fst e)) (fst ` set cleanData) \<union>
          (\<lambda>e. stripName (fst e)) ` {e \<in> set entries. is_sent e}"
      using keys_obj_set_subset [of "stripName (fst e)" "snd e" cleanData] by blast
    also have "\<dots> \<subseteq> fst ` set cleanData \<union>
          (\<lambda>e. stripName (fst e)) ` {e' \<in> set (e # entries). is_sent e'}"
      using True by auto
    finally show ?thesis .
  next
    case False
    have "fst ` set (clean_entries (e # entries) cleanData) \<subseteq>
          fst ` set cleanData \<union> (\<lambda>e. stripName (fst e)) ` {e \<in> set entries. is_sent e}"
      using Cons.IH by (simp only: clean_entries_Cons if_not_P [OF False])
    also have "\<dots> \<subseteq> fst ` set cleanData \<union>
          (\<lambda>e. stripName (fst e)) ` {e' \<in> set (e # entries). is_sent e'}"
      by auto
    finally show ?thesis .
  qed
qed

lemma map_of_clean_entries:
  "k \<noteq> ''__proto__'' \<Longrightarrow>
   map_of (clean_entries entries cleanData) k =
   (map_of cleanData ++ map_of (rev (sent_entries entries))) k"
proof (induction entries arbitrary: cleanData)
  case Nil
  show ?case by (simp add: sent_entries_def)
next
  case (Cons e entries)
  show ?case
  proof (cases "is_sent e")
    case True
    let ?n = "stripName (fst e)"
    have "map_of (clean_entries (e # entries) cleanData) k =
          (map_of (obj_set ?n (snd e) cleanData) ++ map_of (rev (sent_entries entries))) k"
      using Cons.IH [OF Cons.prems] by (simp only: clean_entries_Cons if_P [OF True])
    also have "\<dots> = ((map_of cleanData)(?n \<mapsto> snd e) ++ map_of (rev (sent_entries entries))) k"
      by (rule map_add_cong_left
          [where f = "map_of (obj_set ?n (snd e) cleanData)"
             and g = "(map_of cleanData)(?n \<mapsto> snd e)",
           OF map_of_obj_set_other [OF Cons.prems]])
    also have "\<dots> = (map_of cleanData ++
          ([?n \<mapsto> snd e] ++ map_of (rev (sent_entries entries)))) k"
      by (rule fun_cong [OF map_add_upd_left])
    also have "[?n \<mapsto> snd e] ++ map_of (rev (sent_entries entries)) =
          map_of (rev (sent_entries (e # entries)))"
      using True by (simp add: sent_entries_def)
    finally show ?thesis .
  next
    case False
    have "map_of (clean_entries (e # entries) cleanData) k =
          (map_of cleanData ++ map_of (rev (sent_entries entries))) k"
      using Cons.IH [OF Cons.prems] by (simp only: clean_entries_Cons if_not_P [OF False])
    also have "sent_entries entries = sent_entries (e # entries)"
      using False by (simp add: sent_entries_def)
    finally show ?thesis .
  qed
qed

lemma map_of_add_row_body:
  "k \<noteq> ''__proto__'' \<Longrightarrow>
   map_of (clean_entries newRowData []) k = map_of (rev (sent_entries newRowData)) k"
  by (simp add: map_of_clean_entries)

lemma keys_sent_entries:
  "fst ` set (sent_entries newRowData) =
   (\<lambda>e. stripName (fst e)) ` {e \<in> set newRowData. is_sent e}"
  by (force simp: sent_entries_def)

lemma keys_add_row_body:
  assumes "k \<noteq> ''__proto__''"
  shows "k \<in> fst ` set (clean_entries newRowData []) \<longleftrightarrow>
         k \<in> (\<lambda>e. stripName (fst e)) ` {e \<in> set newRowData. is_sent e}"
proof -
  have "k \<in> fst ` set (clean_entries newRowData []) \<longleftrightarrow>
        map_of (clean_entries newRowData []) k \<noteq> None"
    by (simp only: map_of_eq_None_iff) simp
  also have "\<dots> \<longleftrightarrow> map_of (rev (sent_entries newRowData)) k \<noteq> None"
    by (simp only: map_of_add_row_body [OF assms])
  also have "\<dots> \<longleftrightarrow> k \<in> fst ` set (sent_entries newRowData)"
    by (simp only: map_of_eq_None_iff) simp
  finally show ?thesis by (simp only: keys_sent_entries)
qed

lemma add_row_body_sound:
  assumes "map_of (clean_entries newRowData []) k = Some v"
  shows "\<exists>e \<in> set newRowData. is_sent e \<and> stripName (fst e) = k \<and> snd e = v"
proof -
  have "k \<noteq> ''__proto__''"
  proof
    assume "k = ''__proto__''"
    moreover have "''__proto__'' \<notin> fst ` set (clean_entries newRowData [])"
      by (rule proto_not_in_clean_entries) simp
    ultimately have "map_of (clean_entries newRowData []) k = None"
      by (simp only: map_of_eq_None_iff) simp
    with assms show False by simp
  qed
  from map_of_add_row_body [OF this, of newRowData] assms
  have "map_of (rev (sent_entries newRowData)) k = Some v" by simp
  then have "(k, v) \<in> set (rev (sent_entries newRowData))"
    by (rule map_of_SomeD)
  then show ?thesis by (auto simp: sent_entries_def)
qed

lemma distinct_sent_entries:
  "distinct (map (\<lambda>e. stripName (fst e)) entries) \<Longrightarrow> distinct (map fst (sent_entries entries))"
  by (simp add: sent_entries_def comp_def distinct_map_filter)

lemma add_row_body_exact:
  assumes d: "distinct (map (\<lambda>e. stripName (fst e)) newRowData)" and e: "e \<in> set newRowData"
    and p: "stripName (fst e) \<noteq> ''__proto__''"
  shows "map_of (clean_entries newRowData []) (stripName (fst e)) =
         (if is_sent e then Some (snd e) else None)"
proof (cases "is_sent e")
  case True
  from d have "distinct (map fst (rev (sent_entries newRowData)))"
    by (simp add: distinct_sent_entries rev_map [symmetric])
  moreover from True e have "(stripName (fst e), snd e) \<in> set (rev (sent_entries newRowData))"
    by (force simp: sent_entries_def)
  ultimately have "map_of (rev (sent_entries newRowData)) (stripName (fst e)) = Some (snd e)"
    by (rule map_of_is_SomeI)
  with True p show ?thesis by (simp add: map_of_add_row_body)
next
  case False
  have "map_of (clean_entries newRowData []) (stripName (fst e)) = None"
  proof (rule ccontr)
    assume "map_of (clean_entries newRowData []) (stripName (fst e)) \<noteq> None"
    then obtain v where "map_of (clean_entries newRowData []) (stripName (fst e)) = Some v"
      by auto
    from add_row_body_sound [OF this] obtain e' where
      e': "e' \<in> set newRowData" "is_sent e'" "stripName (fst e') = stripName (fst e)"
      by blast
    from d e e' have "e' = e"
      by (metis (mono_tags, lifting) distinct_map inj_onD)
    with e' False show False by simp
  qed
  with False show ?thesis by simp
qed

text \<open>
  C10, as the claim states it: the request body holds every form entry whose value is
  not empty and whose normalised key is not empty. The Add Column form accepts the column
  name \<^verbatim>\<open>__proto__\<close>. The Add Row form of a table with this column has, once the
  user has typed \<^verbatim>\<open>x\<close> into its input, the entry \<^verbatim>\<open>__proto__\<close> with the
  value \<^verbatim>\<open>x\<close>, which is such an entry; but
  \<^verbatim>\<open>cleanData[trimmedKey] = value\<close> creates no property under this key, and the
  body that is sent is empty.
\<close>

theorem proto_entry_counterexample:
  "onChange_name ''__proto__'' = ''__proto__'' \<and>
   add_row_form [proto_column] [(0, ''x'')] = [(''__proto__'', JString ''x'')] \<and>
   is_sent (''__proto__'', JString ''x'') \<and>
   stripName ''__proto__'' = ''__proto__'' \<and>
   handleAddRow (Some ''t1'') (add_row_form [proto_column] [(0, ''x'')]) =
     Request \<lparr>ir_table_id = ''t1'', ir_body = []\<rparr>"
  by code_simp

text \<open>
  C10, amended: for every row insert submitted from the Add Row form, the request body
  holds, under every key other than \<^verbatim>\<open>__proto__\<close>, exactly the form entries whose
  value is not the empty string, \<^verbatim>\<open>null\<close> or \<^verbatim>\<open>undefined\<close> and whose
  normalised key is not empty, each under its normalised key: such a key is a key of the
  body if and only if it is the normalised key of one of these entries, every value of
  the body is the value of such an entry, and, the normalised keys of the form being
  pairwise distinct, such an entry is in the body and any other entry is absent. An empty
  input is thus sent as an absent column, not as an empty string.
\<close>

theorem add_row_body_entries:
  "handleAddRow tableId newRowData = Request r \<Longrightarrow>
   (\<forall>k. k \<noteq> ''__proto__'' \<longrightarrow>
      (k \<in> fst ` set (ir_body r) \<longleftrightarrow>
       k \<in> (\<lambda>e. stripName (fst e)) ` {e \<in> set newRowData. is_sent e})) \<and>
   (\<forall>k v. map_of (ir_body r) k = Some v \<longrightarrow>
      (\<exists>e \<in> set newRowData. is_sent e \<and> stripName (fst e) = k \<and> snd e = v)) \<and>
   (distinct (map (\<lambda>e. stripName (fst e)) newRowData) \<longrightarrow>
      (\<forall>e \<in> set newRowData.
         stripName (fst e) \<noteq> ''__proto__'' \<longrightarrow>
         map_of (ir_body r) (stripName (fst e)) = (if is_sent e then Some (snd e) else None)))"
proof -
  assume "handleAddRow tableId newRowData = Request r"
  then have body: "ir_body r = clean_entries newRowData []"
    by (auto simp: handleAddRow_def split: option.splits if_splits)
  have a: "\<forall>k. k \<noteq> ''__proto__'' \<longrightarrow>
      (k \<in> fst ` set (clean_entries newRowData []) \<longleftrightarrow>
       k \<in> (\<lambda>e. stripName (fst e)) ` {e \<in> set newRowData. is_sent e})"
    by (intro allI impI) (rule keys_add_row_body)
  have b: "\<forall>k v. map_of (clean_entries newRowData []) k = Some v \<longrightarrow>
      (\<exists>e \<in> set newRowData. is_sent e \<and> stripName (fst e) = k \<and> snd e = v)"
    by (intro allI impI) (rule add_row_body_sound)
  have c: "distinct (map (\<lambda>e. stripName (fst e)) newRowData) \<longrightarrow>
      (\<forall>e \<in> set newRowData.
         stripName (fst e) \<noteq> ''__proto__'' \<longrightarrow>
         map_of (clean_entries newRowData []) (stripName (fst e)) =
         (if is_sent e then Some (snd e) else None))"
    by (intro impI ballI) (rule add_row_body_exact)
  from a b c show ?thesis unfolding body by (intro conjI)
qed

theorem add_row_body_entries_witness:
  "handleAddRow (Some ''t1'') hello_form =
     Request \<lparr>ir_table_id = ''t1'', ir_body = [(''title'', JString ''Hello'')]\<rparr> \<and>
   hello_form = [(''title'', JString ''Hello''), (''body'', JString [])] \<and>
   distinct (map (\<lambda>e. stripName (fst e)) hello_form) \<and>
   stripName ''title'' \<noteq> ''__proto__'' \<and> stripName ''body'' \<noteq> ''__proto__'' \<and>
   map_of [(''title'', JString ''Hello'')] (stripName ''title'') = Some (JString ''Hello'') \<and>
   map_of [(''title'', JString ''Hello'')] (stripName ''body'') = None"
proof -
  let ?r = "\<lparr>ir_table_id = ''t1'', ir_body = [(''title'', JString ''Hello'')]\<rparr>"
  have req: "handleAddRow (Some ''t1'') hello_form = Request ?r"
    by code_simp
  have form: "hello_form = [(''title'', JString ''Hello''), (''body'', JString [])]"
    by code_simp
  have d: "distinct (map (\<lambda>e. stripName (fst e)) hello_form)"
    by code_simp
  have sent: "is_sent (''title'', JString ''Hello'')" "\<not> is_sent (''body'', JString [])"
    by code_simp+
  have p: "stripName ''title'' \<noteq> ''__proto__''" "stripName ''body'' \<noteq> ''__proto__''"
    by code_simp+
  have m: "(''title'', JString ''Hello'') \<in> set hello_form"
    "(''body'', JString []) \<in> set hello_form"
    by (simp_all add: form)
  note T = add_row_body_entries [OF req, THEN conjunct2, THEN conjunct2, THEN mp, OF d]
  from T [THEN bspec, OF m(1), THEN mp] p(1) sent(1)
  have t: "map_of [(''title'', JString ''Hello'')] (stripName ''title'') = Some (JString ''Hello'')"
    by simp
  from T [THEN bspec, OF m(2), THEN mp] p(2) sent(2)
  have b: "map_of [(''title'', JString ''Hello'')] (stripName ''body'') = None"
    by simp
  from req form d p t b show ?thesis by (intro conjI)
qed

lemma keys_openAddRowModal_aux:
  "fst ` set (foldl (\<lambda>initialData col.
              if is_uuid_id col then initialData
              else obj_set (col_name col) (JString []) initialData) acc cols) \<subseteq>
   fst ` set acc \<union> col_name ` set (add_row_fields cols)"
proof (induction cols arbitrary: acc)
  case Nil
  show ?case by simp
next
  case (Cons col cols)
  show ?case
  proof (cases "is_uuid_id col")
    case True
    with Cons.IH [of acc] show ?thesis by (simp add: add_row_fields_def)
  next
    case False
    from Cons.IH [of "obj_set (col_name col) (JString []) acc"]
      keys_obj_set_subset [of "col_name col" "JString []" acc] False
    show ?thesis by (simp add: add_row_fields_def) blast
  qed
qed

lemma keys_openAddRowModal:
  "fst ` set (openAddRowModal columns) \<subseteq> col_name ` set (add_row_fields columns)"
  using keys_openAddRowModal_aux [of "[]" columns] by (simp add: openAddRowModal_def)

lemma keys_type_into_add_row:
  "fst ` set newRowData \<subseteq> col_name ` set (add_row_fields columns) \<Longrightarrow>
   fst ` set (type_into_add_row columns newRowData edit) \<subseteq> col_name ` set (add_row_fields columns)"
  by (auto simp: type_into_add_row_def newRowData_onChange_def keys_obj_define)

lemma keys_foldl_type_into_add_row:
  "fst ` set newRowData \<subseteq> col_name ` set (add_row_fields columns) \<Longrightarrow>
   fst ` set (foldl (type_into_add_row columns) newRowData edits)
     \<subseteq> col_name ` set (add_row_fields columns)"
proof (induction edits arbitrary: newRowData)
  case Nil
  then show ?case by simp
next
  case (Cons edit edits)
  from Cons.IH [OF keys_type_into_add_row [OF Cons.prems]] show ?case by simp
qed

lemma keys_add_row_form:
  "fst ` set (add_row_form columns edits) \<subseteq> col_name ` set (add_row_fields columns)"
  unfolding add_row_form_def
  by (rule keys_foldl_type_into_add_row) (rule keys_openAddRowModal)

lemma add_row_body_from_fields:
  assumes "k \<in> fst ` set (clean_entries (add_row_form columns edits) [])"
  shows "\<exists>col \<in> set columns. \<not> is_uuid_id col \<and> k = stripName (col_name col)"
proof -
  from assms keys_clean_entries [of "add_row_form columns edits" "[]"]
  have "k \<in> (\<lambda>e. stripName (fst e)) ` {e \<in> set (add_row_form columns edits). is_sent e}"
    by auto
  then obtain e where e: "e \<in> set (add_row_form columns edits)" "k = stripName (fst e)"
    by blast
  from e(1) have "fst e \<in> col_name ` set (add_row_fields columns)"
    using keys_add_row_form [of columns edits] by blast
  then obtain col where c: "col \<in> set (add_row_fields columns)" "fst e = col_name col"
    by (rule imageE)
  from c(1) have m: "col \<in> set columns" and u: "\<not> is_uuid_id col"
    by (simp_all add: add_row_fields_def)
  from u e(2) c(2) have "\<not> is_uuid_id col \<and> k = stripName (col_name col)"
    by simp
  with m show ?thesis by (rule bexI [rotated])
qed

lemma map_of_filter_other_key:
  "k \<noteq> k0 \<Longrightarrow> map_of (filter (\<lambda>entry. fst entry \<noteq> k0) ob) k = map_of ob k"
  by (induction ob) auto

text \<open>
  The Add Row button of the quick view of \<^verbatim>\<open>Tables.tsx\<close> has no such filter: the
  row it inserts holds the empty string under every key of the schema, \<^verbatim>\<open>id\<close>
  included.
\<close>

lemma quick_add_row_sends_id:
  "handleAddRow_quick (Some notes_table) (tr_schema notes_table) =
     Request
       \<lparr>ir_table_id = ''t1'',
        ir_body = [(''id'', JString []), (''title'', JString [])]\<rparr>"
  by code_simp

text \<open>
  C2, as the claim states it: no insert includes a value for the identity column. The Add
  Row form leaves out a column called \<^verbatim>\<open>id\<close> only if its type contains
  \<^verbatim>\<open>uuid\<close>. For a table whose \<^verbatim>\<open>id\<close> column has the type
  \<^verbatim>\<open>integer\<close> the form renders the input, and the value typed into it is sent.
\<close>

theorem integer_id_counterexample:
  "add_row_fields [integer_id_column, title_column] = [integer_id_column, title_column] \<and>
   col_name integer_id_column = ''id'' \<and>
   handleAddRow (Some ''t1'') (add_row_form [integer_id_column, title_column] [(0, ''7'')]) =
     Request \<lparr>ir_table_id = ''t1'', ir_body = [(''id'', JString ''7'')]\<rparr>"
  by code_simp

text \<open>
  C2, amended: for every update from the Edit Row form, the entry of the key
  \<^verbatim>\<open>id\<close> is removed from the edited values, and nothing else is, before their keys
  are normalised and the request is sent. For every insert from the Add Row form of the
  table page, every key of the request body is the normalised name of a column that is
  not a uuid id column (a column whose name is \<^verbatim>\<open>id\<close> in any letter case and
  whose type contains \<^verbatim>\<open>uuid\<close>); the normalised column names being pairwise
  distinct, the body has no entry for a uuid id column. A column called \<^verbatim>\<open>id\<close>
  of another type is a field like any other.
\<close>

theorem uuid_id_not_written:
  "(handleUpdateRow stripObjectKeys tableId erd = Request u \<longrightarrow>
      (\<exists>rawUpdateData.
         ur_body u = stripObjectKeys rawUpdateData \<and>
         ''id'' \<notin> fst ` set rawUpdateData \<and>
         (\<forall>k. k \<noteq> ''id'' \<longrightarrow> map_of rawUpdateData k = map_of (er_data erd) k))) \<and>
   (handleAddRow tableId (add_row_form columns edits) = Request r \<longrightarrow>
      (\<forall>k \<in> fst ` set (ir_body r).
         \<exists>col \<in> set columns. \<not> is_uuid_id col \<and> k = stripName (col_name col)) \<and>
      (distinct (map (\<lambda>col. stripName (col_name col)) columns) \<longrightarrow>
         (\<forall>col \<in> set columns.
            is_uuid_id col \<longrightarrow> stripName (col_name col) \<notin> fst ` set (ir_body r))))"
proof (intro conjI impI)
  let ?raw = "filter (\<lambda>entry. fst entry \<noteq> ''id'') (er_data erd)"
  assume "handleUpdateRow stripObjectKeys tableId erd = Request u"
  then have b: "ur_body u = stripObjectKeys ?raw"
    by (auto simp: handleUpdateRow_def Let_def split: option.splits if_splits)
  have i: "''id'' \<notin> fst ` set ?raw"
    by auto
  have m: "\<forall>k. k \<noteq> ''id'' \<longrightarrow> map_of ?raw k = map_of (er_data erd) k"
    by (simp add: map_of_filter_other_key)
  show "\<exists>rawUpdateData.
         ur_body u = stripObjectKeys rawUpdateData \<and>
         ''id'' \<notin> fst ` set rawUpdateData \<and>
         (\<forall>k. k \<noteq> ''id'' \<longrightarrow> map_of rawUpdateData k = map_of (er_data erd) k)"
    by (rule exI [of _ ?raw]) (intro conjI b i m)
next
  assume "handleAddRow tableId (add_row_form columns edits) = Request r"
  then have body: "ir_body r = clean_entries (add_row_form columns edits) []"
    by (auto simp: handleAddRow_def split: option.splits if_splits)
  show fields: "\<forall>k \<in> fst ` set (ir_body r).
         \<exists>col \<in> set columns. \<not> is_uuid_id col \<and> k = stripName (col_name col)"
  proof
    fix k
    assume "k \<in> fst ` set (ir_body r)"
    then show "\<exists>col \<in> set columns. \<not> is_uuid_id col \<and> k = stripName (col_name col)"
      unfolding body by (rule add_row_body_from_fields)
  qed
  show "\<forall>col \<in> set columns.
            is_uuid_id col \<longrightarrow> stripName (col_name col) \<notin> fst ` set (ir_body r)"
    if d: "distinct (map (\<lambda>col. stripName (col_name col)) columns)"
  proof (intro ballI impI notI)
    fix col
    assume col: "col \<in> set columns" "is_uuid_id col"
      and "stripName (col_name col) \<in> fst ` set (ir_body r)"
    with fields obtain col' where
      col': "col' \<in> set columns" "\<not> is_uuid_id col'"
        "stripName (col_name col) = stripName (col_name col')"
      by blast
    from d have "inj_on (\<lambda>col. stripName (col_name col)) (set columns)"
      by (simp add: distinct_map)
    from inj_onD [OF this col'(3) col(1) col'(1)] have "col = col'" .
    with col(2) col'(2) show False by simp
  qed
qed

theorem uuid_id_not_written_witness:
  "handleUpdateRow strip_each_key (Some ''t1'') edited_note =
     Request
       \<lparr>ur_table_id = ''t1'', ur_row_id = JString ''r1'',
        ur_body = [(''title'', JString ''new'')]\<rparr> \<and>
   (\<exists>rawUpdateData.
      [(''title'', JString ''new'')] = strip_each_key rawUpdateData \<and>
      ''id'' \<notin> fst ` set rawUpdateData \<and>
      (\<forall>k. k \<noteq> ''id'' \<longrightarrow> map_of rawUpdateData k = map_of (er_data edited_note) k)) \<and>
   handleAddRow (Some ''t1'') (add_row_form [uuid_id_column, title_column, body_column] [(0, ''Hello'')]) =
     Request \<lparr>ir_table_id = ''t1'', ir_body = [(''title'', JString ''Hello'')]\<rparr> \<and>
   distinct (map (\<lambda>col. stripName (col_name col)) [uuid_id_column, title_column, body_column]) \<and>
   is_uuid_id uuid_id_column \<and>
   stripName (col_name uuid_id_column) \<notin> fst ` set [(''title'', JString ''Hello'')]"
proof -
  let ?u = "\<lparr>ur_table_id = ''t1'', ur_row_id = JString ''r1'',
        ur_body = [(''title'', JString ''new'')]\<rparr>"
  let ?r = "\<lparr>ir_table_id = ''t1'', ir_body = [(''title'', JString ''Hello'')]\<rparr>"
  let ?cols = "[uuid_id_column, title_column, body_column]"
  have upd: "handleUpdateRow strip_each_key (Some ''t1'') edited_note = Request ?u"
    by code_simp
  have ins: "handleAddRow (Some ''t1'') (add_row_form ?cols [(0, ''Hello'')]) = Request ?r"
    by code_simp
  have d: "distinct (map (\<lambda>col. stripName (col_name col)) ?cols)"
    by code_simp
  have uu: "is_uuid_id uuid_id_column"
    by code_simp
  have mem: "uuid_id_column \<in> set ?cols"
    by simp
  note T = uuid_id_not_written
    [of strip_each_key "Some ''t1''" edited_note ?u ?cols "[(0, ''Hello'')]" ?r]
  from T [THEN conjunct1, THEN mp, OF upd]
  have a: "\<exists>rawUpdateData.
      [(''title'', JString ''new'')] = strip_each_key rawUpdateData \<and>
      ''id'' \<notin> fst ` set rawUpdateData \<and>
      (\<forall>k. k \<noteq> ''id'' \<longrightarrow> map_of rawUpdateData k = map_of (er_data edited_note) k)"
    by simp
  from T [THEN conjunct2, THEN mp, OF ins, THEN conjunct2, THEN mp, OF d, THEN bspec, OF mem,
      THEN mp, OF uu]
  have b: "stripName (col_name uuid_id_column) \<notin> fst ` set [(''title'', JString ''Hello'')]"
    by simp
  from upd a ins d uu b show ?thesis by (intro conjI)
qed

section \<open>Sorting, paging and searching\<close>

lemma sort_fields_fetchTables:
  "lv_sortBy (fetchTables token st pageNum appending response) = lv_sortBy st"
  "lv_sortOrder (fetchTables token st pageNum appending response) = lv_sortOrder st"
  by (simp_all add: fetchTables_def Let_def split: response.splits)

lemma sort_invariant_step: "sort_invariant st \<Longrightarrow> sort_invariant (tables_step token st ev)"
proof (cases ev)
  case (SortBySelected i)
  assume "sort_invariant st"
  then show ?thesis
    by (simp add: SortBySelected sort_invariant_def sortBy_onChange_def)
next
  case (FetchDone pageNum appending response)
  assume "sort_invariant st"
  then show ?thesis
    by (simp add: FetchDone sort_invariant_def sort_fields_fetchTables)
qed (simp_all add: sort_invariant_def searchTimeout_def clearSearch_def toggleSortOrder_def
      handleScroll_def)

lemma sort_invariant_foldl:
  "sort_invariant st \<Longrightarrow> sort_invariant (foldl (tables_step token) st events)"
  by (induction events arbitrary: st) (simp_all add: sort_invariant_step)

lemma sort_invariant_initial: "sort_invariant initial_view"
  by (simp add: sort_invariant_def initial_view_def tables_sort_options_def)

text \<open>
  C6: in every state the tables view reaches, by any sequence of searches, sort
  selections, toggles, scrolls, refreshes and completed fetches, the
  \<^verbatim>\<open>sort_by\<close> parameter of a list request is one of \<^verbatim>\<open>created_at\<close>,
  \<^verbatim>\<open>updated_at\<close> and \<^verbatim>\<open>name\<close>, and the \<^verbatim>\<open>sort_order\<close> parameter is
  \<^verbatim>\<open>asc\<close> or \<^verbatim>\<open>desc\<close>.
\<close>

theorem tables_sort_parameters:
  "q_sort_by (fetchTables_query (tables_view token events) pageNum)
     \<in> {''created_at'', ''updated_at'', ''name''} \<and>
   q_sort_order (fetchTables_query (tables_view token events) pageNum) \<in> {''asc'', ''desc''}"
proof -
  have "sort_invariant (tables_view token events)"
    unfolding tables_view_def by (rule sort_invariant_foldl) (rule sort_invariant_initial)
  then show ?thesis
    by (simp add: sort_invariant_def fetchTables_query_def Let_def tables_sort_options_def)
qed

theorem tables_sort_parameters_witness:
  "q_sort_by (fetchTables_query
      (tables_view (Some ''jwt'')
         [SortBySelected 2, ToggleSortOrder, SortBySelected 7, Scrolled,
          FetchDone 2 True (ResponseData [''t1'', ''t2''])]) 2) = ''name'' \<and>
   q_sort_order (fetchTables_query
      (tables_view (Some ''jwt'')
         [SortBySelected 2, ToggleSortOrder, SortBySelected 7, Scrolled,
          FetchDone 2 True (ResponseData [''t1'', ''t2''])]) 2) = ''asc'' \<and>
   ''name'' \<in> {''created_at'', ''updated_at'', ''name''} \<and> ''asc'' \<in> {''asc'', ''desc''}"
proof -
  let ?st = "tables_view (Some ''jwt'')
      [SortBySelected 2, ToggleSortOrder, SortBySelected 7, Scrolled,
       FetchDone 2 True (ResponseData [''t1'', ''t2''])]"
  have a: "q_sort_by (fetchTables_query ?st 2) = ''name''"
    and b: "q_sort_order (fetchTables_query ?st 2) = ''asc''"
    by code_simp+
  from tables_sort_parameters [of "Some ''jwt''"
      "[SortBySelected 2, ToggleSortOrder, SortBySelected 7, Scrolled,
        FetchDone 2 True (ResponseData [''t1'', ''t2''])]" 2]
  show ?thesis unfolding a b by (simp add: a b)
qed


















lemma length_last_full_page:
  assumes "0 < k" "length rows = 50 * k"
  shows "length (take 50 (drop (50 * (k - 1)) rows)) = 50"
proof -
  from assms(1) obtain j where k: "k = Suc j" by (cases k) auto
  with assms(2) show ?thesis by simp
qed

text \<open>
  C8: after every successful fetch of a list page in the tables view and in the users
  view, \<^verbatim>\<open>hasMore\<close> is true exactly when the number of records returned equals the
  page size 50. It is therefore true after the last page of a collection whose size is a
  positive multiple of 50, which is full although no record follows it, and false after
  every page of fewer than 50 records.
\<close>

theorem hasMore_iff_full_page:
  "token = Some tok \<Longrightarrow> tok \<noteq> [] \<Longrightarrow>
   (lv_hasMore (fetchTables token st pageNum appending (ResponseData data))
      \<longleftrightarrow> int (length data) = PAGE_SIZE) \<and>
   (lv_hasMore (fetchUsers token st' pageNum' appending' (ResponseData data'))
      \<longleftrightarrow> int (length data') = PAGE_SIZE) \<and>
   PAGE_SIZE = 50 \<and>
   (0 < k \<and> length rows = 50 * k \<longrightarrow>
      lv_hasMore (fetchTables token st (int k) appending
        (ResponseData (take 50 (drop (50 * (k - 1)) rows)))) \<and>
      lv_hasMore (fetchUsers token st' (int k) appending'
        (ResponseData (take 50 (drop (50 * (k - 1)) rows)))) \<and>
      drop (50 * k) rows = [])"
proof -
  assume t: "token = Some tok" "tok \<noteq> []"
  have tables: "lv_hasMore (fetchTables token s p a (ResponseData d)) \<longleftrightarrow> int (length d) = PAGE_SIZE"
    for s :: "'a list_view" and p a d
    using t by (simp add: fetchTables_def Let_def)
  have users: "lv_hasMore (fetchUsers token s p a (ResponseData d)) \<longleftrightarrow> int (length d) = PAGE_SIZE"
    for s :: "'a list_view" and p a d
    using t by (simp add: fetchUsers_def Let_def)
  have size: "PAGE_SIZE = 50" by (simp add: PAGE_SIZE_def)
  have last: "lv_hasMore (fetchTables token st (int k) appending
        (ResponseData (take 50 (drop (50 * (k - 1)) rows)))) \<and>
      lv_hasMore (fetchUsers token st' (int k) appending'
        (ResponseData (take 50 (drop (50 * (k - 1)) rows)))) \<and>
      drop (50 * k) rows = []"
    if "0 < k \<and> length rows = 50 * k"
  proof -
    from that have "length (take 50 (drop (50 * (k - 1)) rows)) = 50"
      by (intro length_last_full_page) simp_all
    then have "int (length (take 50 (drop (50 * (k - 1)) rows))) = PAGE_SIZE"
      by (simp only: size)
    moreover from that have "drop (50 * k) rows = []" by simp
    ultimately show ?thesis by (simp add: tables users)
  qed
  from tables users size last show ?thesis by blast
qed

theorem hasMore_iff_full_page_witness:
  "Some ''jwt'' = Some ''jwt'' \<and> ''jwt'' \<noteq> [] \<and>
   lv_hasMore (fetchTables (Some ''jwt'') initial_view 1 False (ResponseData (replicate 50 ''t''))) \<and>
   \<not> lv_hasMore (fetchUsers (Some ''jwt'') initial_view 2 True (ResponseData (replicate 49 ''u''))) \<and>
   (0::nat) < 2 \<and> length (replicate 100 ''t'') = 50 * 2 \<and>
   lv_hasMore (fetchTables (Some ''jwt'') initial_view (int 2) False
     (ResponseData (take 50 (drop (50 * (2 - 1)) (replicate 100 ''t''))))) \<and>
   drop (50 * 2) (replicate 100 ''t'') = []"
proof -
  have t: "Some ''jwt'' = Some ''jwt''" and n: "''jwt'' \<noteq> []" by simp_all
  have l: "int (length (replicate 50 ''t'')) = PAGE_SIZE"
    "int (length (replicate 49 ''u'')) \<noteq> PAGE_SIZE"
    by (simp_all add: PAGE_SIZE_def)
  have k: "(0::nat) < 2" "length (replicate 100 ''t'') = 50 * 2" by simp_all
  note T = hasMore_iff_full_page [OF t n, of initial_view 1 False "replicate 50 ''t''"
      initial_view 2 True "replicate 49 ''u''" 2 "replicate 100 ''t''"]
  from T l have a: "lv_hasMore (fetchTables (Some ''jwt'') initial_view 1 False
      (ResponseData (replicate 50 ''t'')))"
    and b: "\<not> lv_hasMore (fetchUsers (Some ''jwt'') initial_view 2 True
      (ResponseData (replicate 49 ''u'')))"
    by simp_all
  note L = T [THEN conjunct2, THEN conjunct2, THEN conjunct2, THEN mp, OF conjI, OF k]
  from L [THEN conjunct1]
  have c: "lv_hasMore (fetchTables (Some ''jwt'') initial_view (int 2) False
      (ResponseData (take 50 (drop (50 * (2 - 1)) (replicate 100 ''t'')))))" .
  from L [THEN conjunct2, THEN conjunct2]
  have d: "drop (50 * 2) (replicate 100 ''t'') = []" .
  from t n a b k c d show ?thesis by (intro conjI)
qed

text \<open>
  C9: every change of the search query (when the debounce timer fires, or by the clear
  button), of the sort field and of the sort order sets the page to 1. In the tables and
  users views the fetch that the change triggers asks for offset 0 with the new
  setting, and the next scroll asks for page 2, offset 50, whatever the page was before;
  in the table page the next fetch asks for page 1.
\<close>

theorem filter_change_resets_page:
  "lv_page (searchTimeout st v) = 1 \<and> lv_page (clearSearch st) = 1 \<and>
   lv_page (toggleSortOrder st) = 1 \<and>
   (i < length options \<longrightarrow> lv_page (sortBy_onChange options st i) = 1) \<and>
   q_skip (effect_request (searchTimeout st v)) = 0 \<and>
   q_search (effect_request (searchTimeout st v)) = or_null v \<and>
   q_skip (effect_request (clearSearch st)) = 0 \<and>
   q_search (effect_request (clearSearch st)) = None \<and>
   q_skip (effect_request (toggleSortOrder st)) = 0 \<and>
   q_sort_order (effect_request (toggleSortOrder st)) \<noteq> lv_sortOrder st \<and>
   q_skip (effect_request (sortBy_onChange options st i)) = 0 \<and>
   (i < length options \<longrightarrow> q_sort_by (effect_request (sortBy_onChange options st i)) = options ! i) \<and>
   (\<forall>q. handleScroll_request (searchTimeout st v) = Some q \<longrightarrow> q_skip q = PAGE_SIZE) \<and>
   (\<forall>q. handleScroll_request (clearSearch st) = Some q \<longrightarrow> q_skip q = PAGE_SIZE) \<and>
   (\<forall>q. handleScroll_request (toggleSortOrder st) = Some q \<longrightarrow> q_skip q = PAGE_SIZE) \<and>
   (\<forall>q. i < length options \<and> handleScroll_request (sortBy_onChange options st i) = Some q
        \<longrightarrow> q_skip q = PAGE_SIZE) \<and>
   dq_page (fetchData_query (detail_searchTimeout dst v)) = 1 \<and>
   dq_page (fetchData_query (detail_clearSearch dst)) = 1 \<and>
   dq_page (fetchData_query (detail_toggleSortOrder dst)) = 1 \<and>
   dq_page (fetchData_query (detail_sortBy_onChange dst v)) = 1"
proof -
  have pages: "lv_page (searchTimeout st v) = 1" "lv_page (clearSearch st) = 1"
    "lv_page (toggleSortOrder st) = 1"
    "i < length options \<longrightarrow> lv_page (sortBy_onChange options st i) = 1"
    by (simp_all add: searchTimeout_def clearSearch_def toggleSortOrder_def sortBy_onChange_def)
  have effects: "q_skip (effect_request (searchTimeout st v)) = 0"
    "q_search (effect_request (searchTimeout st v)) = or_null v"
    "q_skip (effect_request (clearSearch st)) = 0"
    "q_search (effect_request (clearSearch st)) = None"
    "q_skip (effect_request (toggleSortOrder st)) = 0"
    "q_sort_order (effect_request (toggleSortOrder st)) \<noteq> lv_sortOrder st"
    "q_skip (effect_request (sortBy_onChange options st i)) = 0"
    "i < length options \<longrightarrow> q_sort_by (effect_request (sortBy_onChange options st i)) = options ! i"
    by (simp_all add: effect_request_def fetchTables_query_def Let_def searchTimeout_def
        clearSearch_def toggleSortOrder_def sortBy_onChange_def or_null_def)
  have scroll: "handleScroll_request s = Some q \<Longrightarrow> lv_page s = 1 \<Longrightarrow> q_skip q = PAGE_SIZE"
    for s :: "'a list_view" and q
    by (auto simp: handleScroll_request_def fetchTables_query_def Let_def split: if_splits)
  have scrolls:
    "\<forall>q. handleScroll_request (searchTimeout st v) = Some q \<longrightarrow> q_skip q = PAGE_SIZE"
    "\<forall>q. handleScroll_request (clearSearch st) = Some q \<longrightarrow> q_skip q = PAGE_SIZE"
    "\<forall>q. handleScroll_request (toggleSortOrder st) = Some q \<longrightarrow> q_skip q = PAGE_SIZE"
    "\<forall>q. i < length options \<and> handleScroll_request (sortBy_onChange options st i) = Some q
        \<longrightarrow> q_skip q = PAGE_SIZE"
    using scroll [of "searchTimeout st v"] scroll [of "clearSearch st"]
      scroll [of "toggleSortOrder st"] scroll [of "sortBy_onChange options st i"] pages
    by simp_all
  have details: "dq_page (fetchData_query (detail_searchTimeout dst v)) = 1"
    "dq_page (fetchData_query (detail_clearSearch dst)) = 1"
    "dq_page (fetchData_query (detail_toggleSortOrder dst)) = 1"
    "dq_page (fetchData_query (detail_sortBy_onChange dst v)) = 1"
    by (simp_all add: fetchData_query_def detail_searchTimeout_def detail_clearSearch_def
        detail_toggleSortOrder_def detail_sortBy_onChange_def)
  from pages effects scrolls details show ?thesis by (intro conjI)
qed

theorem filter_change_resets_page_witness:
  "lv_page view_on_page_5 = 5 \<and> (1::nat) < length users_sort_options \<and>
   lv_page (sortBy_onChange users_sort_options view_on_page_5 1) = 1 \<and>
   q_sort_by (effect_request (sortBy_onChange users_sort_options view_on_page_5 1)) = ''email'' \<and>
   handleScroll_request (sortBy_onChange users_sort_options view_on_page_5 1) =
     Some \<lparr>q_skip = 50, q_limit = 50, q_search = None, q_sort_by = ''email'',
           q_sort_order = ''desc''\<rparr> \<and>
   q_skip \<lparr>q_skip = 50, q_limit = 50, q_search = None, q_sort_by = ''email'',
           q_sort_order = ''desc''\<rparr> = PAGE_SIZE \<and>
   dv_page detail_on_page_5 = 5 \<and>
   dq_page (fetchData_query (detail_searchTimeout detail_on_page_5 ''new'')) = 1"
proof -
  let ?q = "\<lparr>q_skip = 50, q_limit = 50, q_search = None, q_sort_by = ''email'',
           q_sort_order = ''desc''\<rparr>"
  have five: "lv_page view_on_page_5 = 5" "dv_page detail_on_page_5 = 5"
    by (simp_all add: view_on_page_5_def detail_on_page_5_def)
  have len: "(1::nat) < length users_sort_options"
    by (simp add: users_sort_options_def)
  have opt: "users_sort_options ! 1 = ''email''"
    by (simp add: users_sort_options_def)
  have req: "handleScroll_request (sortBy_onChange users_sort_options view_on_page_5 1) = Some ?q"
    by code_simp
  note T = filter_change_resets_page
    [of view_on_page_5 "''new''" 1 users_sort_options detail_on_page_5]
  from T len have "lv_page (sortBy_onChange users_sort_options view_on_page_5 1) = 1"
    by simp
  moreover from T len opt
  have "q_sort_by (effect_request (sortBy_onChange users_sort_options view_on_page_5 1)) = ''email''"
    by simp
  moreover from T len req have "q_skip ?q = PAGE_SIZE"
    by simp
  moreover from T
  have "dq_page (fetchData_query (detail_searchTimeout detail_on_page_5 ''new'')) = 1"
    by simp
  ultimately show ?thesis using five len req by simp
qed

end
